theory Spec2Isabelle
  imports Main "HOL-Library.Multiset"
begin

section \<open>Data model\<close>

text \<open>
  The struct \<open>Task\<close> of \<open>main.go\<close> (the same in the flat-file and in the relational
  variant). Go's \<open>int\<close> fields are read as mathematical integers: the program does no
  arithmetic on them. Go strings are byte strings. A \<open>[]Task\<close> slice is a list; the
  nil slice and the empty slice are both \<open>[]\<close>.
\<close>

record Task =
  ID :: int
  Name :: string
  Start :: string
  DurationDays :: int
  Color :: string
  Priority :: int

text \<open>
  One constructor for every place where the program builds an error with
  \<open>fmt.Errorf\<close>. The wrapped library error is dropped, except where the program wraps
  one of its own errors.
\<close>

datatype error =
    ReadError                 \<comment> \<open>loadTasksFromFile: os.ReadFile failed, not with "not exist"\<close>
  | ParseError                \<comment> \<open>loadTasksFromFile: json.Unmarshal failed\<close>
  | SerializeError            \<comment> \<open>saveTasksToFile: json.MarshalIndent failed\<close>
  | WriteError                \<comment> \<open>saveTasksToFile: os.WriteFile failed\<close>
  | SeedFileError error       \<comment> \<open>loadTasksFromFile: writing the default file failed\<close>
  | OpenError                 \<comment> \<open>initDB: sql.Open failed\<close>
  | PingError                 \<comment> \<open>initDB: db.Ping failed\<close>
  | CreateTableError          \<comment> \<open>initDB: CREATE TABLE failed\<close>
  | CountError                \<comment> \<open>initDB: SELECT COUNT(*) failed\<close>
  | SeedDBError error         \<comment> \<open>initDB: inserting the default tasks failed\<close>
  | QueryError                \<comment> \<open>loadTasksFromDB: db.Query failed\<close>
  | ScanError                 \<comment> \<open>loadTasksFromDB: rows.Scan failed\<close>
  | TransactionError          \<comment> \<open>saveTasksToDB: db.Begin failed\<close>
  | DeleteError               \<comment> \<open>saveTasksToDB: DELETE FROM tasks failed\<close>
  | PrepareError              \<comment> \<open>saveTasksToDB: tx.Prepare failed\<close>
  | InsertError int           \<comment> \<open>saveTasksToDB: stmt.Exec failed for the task with this ID\<close>
  | CommitError               \<comment> \<open>saveTasksToDB: tx.Commit failed\<close>

section \<open>The runtime the program runs on\<close>

text \<open>
  What the program takes from its libraries and does not define itself:
  \<open>json.MarshalIndent\<close> and \<open>json.Unmarshal\<close> at type \<open>[]Task\<close> (\<open>None\<close> is a
  returned error), and the year of \<open>time.Now()\<close>. They are parameters of every function
  that uses them.
\<close>

record runtime =
  MarshalIndent :: "Task list \<Rightarrow> string option"
  Unmarshal :: "string \<Rightarrow> Task list option"
  NowYear :: int

text \<open>
  A fault plan says which library calls fail for reasons outside the program (I/O errors,
  a locked database): the call made when \<open>n\<close> calls have been made before fails iff the
  plan holds at \<open>n\<close>.
\<close>

type_synonym faults = "nat \<Rightarrow> bool"

definition no_faults :: faults where
  "no_faults = (\<lambda>n. False)"

section \<open>Default tasks\<close>

text \<open>
  \<open>time.Format\<close> with layout \<open>2006-01-02\<close>: the year zero-padded to four digits (with a
  minus sign when negative), month and day to two. \<open>getInitialTasks\<close> only formats days
  of January, so month and day are passed as they are.
\<close>

definition digit_char :: "nat \<Rightarrow> char" where
  "digit_char d = char_of (48 + d)"

fun decimal :: "nat \<Rightarrow> string" where
  "decimal n = (if n < 10 then [digit_char n] else decimal (n div 10) @ [digit_char (n mod 10)])"

definition pad :: "nat \<Rightarrow> string \<Rightarrow> string" where
  "pad w s = replicate (w - length s) CHR ''0'' @ s"

definition formatDate :: "int \<Rightarrow> nat \<Rightarrow> nat \<Rightarrow> string" where
  "formatDate y m d =
     (if y < 0 then ''-'' else '''') @ pad 4 (decimal (nat \<bar>y\<bar>)) @ ''-'' @
     pad 2 (decimal m) @ ''-'' @ pad 2 (decimal d)"

text \<open>
  \<open>getInitialTasks\<close>, given the year of \<open>time.Now()\<close>: \<open>start\<close> is the first of
  January of next year, and
  \<open>start.AddDate(0, 0, k)\<close> for \<open>k = 7, 12, 24\<close> is the 8th, 13th and 25th of January.
  The names are the UTF-8 bytes of the source's string literals.
\<close>

definition getInitialTasks :: "int \<Rightarrow> Task list" where
  "getInitialTasks nowYear =
     (let nextYear = nowYear + 1 in
      [\<lparr>ID = 1,
        Name = [CHR 0xE9, CHR 0x9C, CHR 0x80, CHR 0xE6, CHR 0xB1, CHR 0x82,
                CHR 0xE6, CHR 0x94, CHR 0xB6, CHR 0xE9, CHR 0x9B, CHR 0x86],
        Start = formatDate nextYear 1 1, DurationDays = 7, Color = ''#3B82F6'', Priority = 4\<rparr>,
       \<lparr>ID = 2,
        Name = [CHR 0xE7, CHR 0xB3, CHR 0xBB, CHR 0xE7, CHR 0xB5, CHR 0xB1,
                CHR 0xE8, CHR 0xA8, CHR 0xAD, CHR 0xE8, CHR 0xA8, CHR 0x88],
        Start = formatDate nextYear 1 8, DurationDays = 5, Color = ''#F97316'', Priority = 2\<rparr>,
       \<lparr>ID = 3,
        Name = [CHR 0xE5, CHR 0xBE, CHR 0x8C, CHR 0xE7, CHR 0xAB, CHR 0xAF,
                CHR 0xE9, CHR 0x96, CHR 0x8B, CHR 0xE7, CHR 0x99, CHR 0xBC],
        Start = formatDate nextYear 1 13, DurationDays = 12, Color = ''#EF4444'', Priority = 1\<rparr>,
       \<lparr>ID = 4,
        Name = [CHR 0xE5, CHR 0x89, CHR 0x8D, CHR 0xE7, CHR 0xAB, CHR 0xAF,
                CHR 0xE9, CHR 0x96, CHR 0x8B, CHR 0xE7, CHR 0x99, CHR 0xBC],
        Start = formatDate nextYear 1 13, DurationDays = 10, Color = ''#FBBF24'', Priority = 3\<rparr>,
       \<lparr>ID = 5,
        Name = [CHR 0xE6, CHR 0x95, CHR 0xB4, CHR 0xE5, CHR 0x90, CHR 0x88,
                CHR 0xE6, CHR 0xB8, CHR 0xAC, CHR 0xE8, CHR 0xA9, CHR 0xA6],
        Start = formatDate nextYear 1 25, DurationDays = 8, Color = ''#10B981'', Priority = 5\<rparr>])"

section \<open>Flat-file variant\<close>

subsection \<open>The file system\<close>

text \<open>
  The program touches one file, \<open>gantt.json\<close>. \<open>gantt_json\<close> is its content
  (\<open>None\<close>: the file does not exist), \<open>fs_trace\<close> the calls of \<open>os.ReadFile\<close> and
  \<open>os.WriteFile\<close> made so far, \<open>fs_faults\<close> the fault plan. A read that fails does so
  with an error other than "not exist"; a write that fails leaves the file as it was.
\<close>

datatype fs_call = ReadFile | WriteFile string

record filesys =
  gantt_json :: "string option"
  fs_trace :: "fs_call list"
  fs_faults :: faults

datatype read_result = NotExist | ReadFailed | Data string

definition os_ReadFile :: "filesys \<Rightarrow> read_result \<times> filesys" where
  "os_ReadFile fs =
     (let fs' = fs\<lparr>fs_trace := fs_trace fs @ [ReadFile]\<rparr> in
      if fs_faults fs (length (fs_trace fs)) then (ReadFailed, fs')
      else case gantt_json fs of
        None \<Rightarrow> (NotExist, fs')
      | Some data \<Rightarrow> (Data data, fs'))"

definition os_WriteFile :: "string \<Rightarrow> filesys \<Rightarrow> bool \<times> filesys" where
  "os_WriteFile data fs =
     (let fs' = fs\<lparr>fs_trace := fs_trace fs @ [WriteFile data]\<rparr> in
      if fs_faults fs (length (fs_trace fs)) then (False, fs')
      else (True, fs'\<lparr>gantt_json := Some data\<rparr>))"

subsection \<open>Load and save\<close>

text \<open>
  \<open>saveTasksToFile\<close> returns \<open>None\<close> for Go's nil error. \<open>dataMutex\<close> has no
  effect on a call that runs alone and is left out here; a later section follows two
  calls that run at once.
\<close>

definition saveTasksToFile :: "runtime \<Rightarrow> Task list \<Rightarrow> filesys \<Rightarrow> error option \<times> filesys" where
  "saveTasksToFile R tasks fs =
     (case MarshalIndent R tasks of
        None \<Rightarrow> (Some SerializeError, fs)
      | Some data \<Rightarrow>
          (case os_WriteFile data fs of
             (False, fs') \<Rightarrow> (Some WriteError, fs')
           | (True, fs') \<Rightarrow> (None, fs')))"

definition loadTasksFromFile :: "runtime \<Rightarrow> filesys \<Rightarrow> (error + Task list) \<times> filesys" where
  "loadTasksFromFile R fs =
     (case os_ReadFile fs of
        (NotExist, fs1) \<Rightarrow>
          (let tasks = getInitialTasks (NowYear R) in
           case saveTasksToFile R tasks fs1 of
             (Some err, fs2) \<Rightarrow> (Inl (SeedFileError err), fs2)
           | (None, fs2) \<Rightarrow> (Inr tasks, fs2))
      | (ReadFailed, fs1) \<Rightarrow> (Inl ReadError, fs1)
      | (Data data, fs1) \<Rightarrow>
          (case Unmarshal R data of
             None \<Rightarrow> (Inl ParseError, fs1)
           | Some tasks \<Rightarrow> (Inr tasks, fs1)))"

subsection \<open>HTTP handler\<close>

text \<open>
  What the handler reads of a request: the method, the result of \<open>io.ReadAll(r.Body)\<close>
  (\<open>None\<close>: it returned an error) and \<open>r.URL.Query().Get("id")\<close> (empty when the
  parameter is absent). A response is its status code and one of the bodies the handlers
  write.
\<close>

record request =
  Method :: string
  Body :: "string option"
  QueryID :: string

datatype reply =
    TasksJSON "Task list"        \<comment> \<open>json.NewEncoder(w).Encode(tasks)\<close>
  | SavedMessage                 \<comment> \<open>POST succeeded\<close>
  | DeletedMessage int           \<comment> \<open>Task ID %d deleted successfully\<close>
  | LoadFailed error
  | ReadBodyFailed
  | ParseBodyFailed
  | SaveFailed error
  | MissingTaskID
  | InvalidTaskID
  | LoadForDeletionFailed error
  | TaskNotFound int             \<comment> \<open>Task with ID %d not found\<close>
  | SaveAfterDeletionFailed error
  | MethodNotSupported

record response =
  StatusCode :: nat
  Reply :: reply

text \<open>
  \<open>strconv.Atoi\<close> on a 64-bit platform: an optional sign, then one or more decimal
  digits, and the value must fit a signed 64-bit integer.
\<close>

definition digit :: "char \<Rightarrow> nat option" where
  "digit c = (let n = (of_char c :: nat) in if 48 \<le> n \<and> n \<le> 57 then Some (n - 48) else None)"

fun digits_value :: "nat \<Rightarrow> string \<Rightarrow> nat option" where
  "digits_value n [] = Some n"
| "digits_value n (c # cs) =
     (case digit c of None \<Rightarrow> None | Some d \<Rightarrow> digits_value (n * 10 + d) cs)"

definition Atoi :: "string \<Rightarrow> int option" where
  "Atoi s =
     (case s of
        [] \<Rightarrow> None
      | c # cs \<Rightarrow>
          (let ds = (if c = CHR ''-'' \<or> c = CHR ''+'' then cs else s) in
           if ds = [] then None
           else case digits_value 0 ds of
                  None \<Rightarrow> None
                | Some n \<Rightarrow>
                    (let v = (if c = CHR ''-'' then - int n else int n) in
                     if - 9223372036854775808 \<le> v \<and> v < 9223372036854775808 then Some v else None)))"

text \<open>
  The loop of the DELETE branch: it walks \<open>currentTasks\<close> and carries \<open>found\<close> and
  \<open>newTasks\<close>.
\<close>

fun deleteLoop :: "int \<Rightarrow> Task list \<Rightarrow> bool \<times> Task list \<Rightarrow> bool \<times> Task list" where
  "deleteLoop taskID [] (found, newTasks) = (found, newTasks)"
| "deleteLoop taskID (task # rest) (found, newTasks) =
     (if ID task \<noteq> taskID then deleteLoop taskID rest (found, newTasks @ [task])
      else deleteLoop taskID rest (True, newTasks))"

definition apiTasksHandler_file :: "runtime \<Rightarrow> request \<Rightarrow> filesys \<Rightarrow> response \<times> filesys" where
  "apiTasksHandler_file R r fs =
     (if Method r = ''GET'' then
        (case loadTasksFromFile R fs of
           (Inl err, fs1) \<Rightarrow> (\<lparr>StatusCode = 500, Reply = LoadFailed err\<rparr>, fs1)
         | (Inr tasks, fs1) \<Rightarrow> (\<lparr>StatusCode = 200, Reply = TasksJSON tasks\<rparr>, fs1))
      else if Method r = ''POST'' then
        (case Body r of
           None \<Rightarrow> (\<lparr>StatusCode = 400, Reply = ReadBodyFailed\<rparr>, fs)
         | Some body \<Rightarrow>
             (case Unmarshal R body of
                None \<Rightarrow> (\<lparr>StatusCode = 400, Reply = ParseBodyFailed\<rparr>, fs)
              | Some tasks \<Rightarrow>
                  (case saveTasksToFile R tasks fs of
                     (Some err, fs1) \<Rightarrow> (\<lparr>StatusCode = 500, Reply = SaveFailed err\<rparr>, fs1)
                   | (None, fs1) \<Rightarrow> (\<lparr>StatusCode = 200, Reply = SavedMessage\<rparr>, fs1))))
      else if Method r = ''DELETE'' then
        (if QueryID r = [] then (\<lparr>StatusCode = 400, Reply = MissingTaskID\<rparr>, fs)
         else case Atoi (QueryID r) of
           None \<Rightarrow> (\<lparr>StatusCode = 400, Reply = InvalidTaskID\<rparr>, fs)
         | Some taskID \<Rightarrow>
             (case loadTasksFromFile R fs of
                (Inl err, fs1) \<Rightarrow> (\<lparr>StatusCode = 500, Reply = LoadForDeletionFailed err\<rparr>, fs1)
              | (Inr currentTasks, fs1) \<Rightarrow>
                  (case deleteLoop taskID currentTasks (False, []) of
                     (False, newTasks) \<Rightarrow> (\<lparr>StatusCode = 404, Reply = TaskNotFound taskID\<rparr>, fs1)
                   | (True, newTasks) \<Rightarrow>
                       (case saveTasksToFile R newTasks fs1 of
                          (Some err, fs2) \<Rightarrow>
                            (\<lparr>StatusCode = 500, Reply = SaveAfterDeletionFailed err\<rparr>, fs2)
                        | (None, fs2) \<Rightarrow>
                            (\<lparr>StatusCode = 200, Reply = DeletedMessage taskID\<rparr>, fs2)))))
      else (\<lparr>StatusCode = 405, Reply = MethodNotSupported\<rparr>, fs))"

subsection \<open>Startup\<close>

text \<open>
  What \<open>main\<close> does, as the list of its steps that matter to the outside:
  an error it prints and goes on from, the call of \<open>http.ListenAndServe\<close> (which serves
  until it fails; \<open>port_free\<close> says whether it can bind the port), and \<open>log.Fatalf\<close>,
  which prints and ends the process with exit code 1.
\<close>

datatype event =
    Printf_LoadError error
  | ListenAndServe
  | Printf_ListenError
  | Fatalf_InitDB error
  | Fatalf_ListenError

definition main_file :: "runtime \<Rightarrow> bool \<Rightarrow> filesys \<Rightarrow> event list \<times> filesys" where
  "main_file R port_free fs =
     (case loadTasksFromFile R fs of
        (r, fs1) \<Rightarrow>
          ((case r of Inl err \<Rightarrow> [Printf_LoadError err] | Inr tasks \<Rightarrow> []) @
           [ListenAndServe] @
           (if port_free then [] else [Printf_ListenError]), fs1))"

section \<open>Relational variant\<close>

subsection \<open>The database\<close>

text \<open>
  The database holds one table, \<open>tasks\<close>, with \<open>id INTEGER PRIMARY KEY\<close>.
  \<open>tasks_table\<close> is its committed rows in insertion order (\<open>None\<close>: the table has not
  been created), \<open>db_trace\<close> the calls made to \<open>database/sql\<close> so far, \<open>db_faults\<close>
  the fault plan. \<open>order_by_priority\<close> is the engine's answer to
  \<open>SELECT ... FROM tasks ORDER BY priority\<close>: the order in which it delivers the stored
  rows. The program does not sort; what the engine does with the clause, and with rows of
  equal priority, is a parameter of the database. \<open>driver\<close> records a call and says
  whether the fault plan lets it succeed.
\<close>

datatype db_call =
    Open | Ping | ExecCreateTable | QueryRowCount
  | Begin | ExecDelete | Prepare | StmtExec Task | Commit | Rollback | StmtClose
  | Query | RowsNext | RowsScan | RowsClose

record database =
  tasks_table :: "Task list option"
  db_trace :: "db_call list"
  db_faults :: faults
  order_by_priority :: "Task list \<Rightarrow> Task list"

definition driver :: "db_call \<Rightarrow> database \<Rightarrow> bool \<times> database" where
  "driver c db =
     (\<not> db_faults db (length (db_trace db)), db\<lparr>db_trace := db_trace db @ [c]\<rparr>)"

subsection \<open>Save and load\<close>

text \<open>
  The insert loop of \<open>saveTasksToDB\<close>. \<open>rows\<close> is the table as the open transaction
  sees it. An insert fails when the fault plan says so or when the primary key is
  already in the table; the program then rolls back.
\<close>

fun insertLoop :: "Task list \<Rightarrow> Task list \<Rightarrow> database \<Rightarrow> (error + Task list) \<times> database" where
  "insertLoop [] rows db = (Inr rows, db)"
| "insertLoop (task # tasks) rows db =
     (case driver (StmtExec task) db of
        (ok, db1) \<Rightarrow>
          if ok \<and> ID task \<notin> set (map ID rows) then insertLoop tasks (rows @ [task]) db1
          else (Inl (InsertError (ID task)), snd (driver Rollback db1)))"

text \<open>
  \<open>saveTasksToDB\<close>. The transaction works on its own copy of the rows; only a
  successful commit stores it. \<open>DELETE FROM tasks\<close> fails when the table does not exist.
  A rollback drops the copy, whatever \<open>tx.Rollback\<close> returns (the program ignores it).
  The deferred \<open>stmt.Close()\<close> runs last on every path after the prepare.
\<close>

definition saveTasksToDB :: "Task list \<Rightarrow> database \<Rightarrow> error option \<times> database" where
  "saveTasksToDB tasks db =
     (case driver Begin db of
        (False, db1) \<Rightarrow> (Some TransactionError, db1)
      | (True, db1) \<Rightarrow>
          (case driver ExecDelete db1 of
             (ok, db2) \<Rightarrow>
               if \<not> ok \<or> tasks_table db2 = None
               then (Some DeleteError, snd (driver Rollback db2))
               else
                 (case driver Prepare db2 of
                    (False, db3) \<Rightarrow> (Some PrepareError, snd (driver Rollback db3))
                  | (True, db3) \<Rightarrow>
                      (case insertLoop tasks [] db3 of
                         (Inl err, db4) \<Rightarrow> (Some err, snd (driver StmtClose db4))
                       | (Inr rows, db4) \<Rightarrow>
                           (case driver Commit db4 of
                              (False, db5) \<Rightarrow> (Some CommitError, snd (driver StmtClose db5))
                            | (True, db5) \<Rightarrow>
                                (None, snd (driver StmtClose (db5\<lparr>tasks_table := Some rows\<rparr>))))))))"

text \<open>
  The row loop of \<open>loadTasksFromDB\<close>. \<open>rows.Next()\<close> returns false at the end of the
  rows and also when it fails; the program does not look at \<open>rows.Err()\<close>, so both end
  the loop with the tasks read so far and no error.
\<close>

fun scanLoop :: "Task list \<Rightarrow> Task list \<Rightarrow> database \<Rightarrow> (error + Task list) \<times> database" where
  "scanLoop [] tasks db = (Inr tasks, snd (driver RowsNext db))"
| "scanLoop (row # rows) tasks db =
     (case driver RowsNext db of
        (False, db1) \<Rightarrow> (Inr tasks, db1)
      | (True, db1) \<Rightarrow>
          (case driver RowsScan db1 of
             (False, db2) \<Rightarrow> (Inl ScanError, db2)
           | (True, db2) \<Rightarrow> scanLoop rows (tasks @ [row]) db2))"

text \<open>
  \<open>loadTasksFromDB\<close>. The query delivers the stored rows in the engine's order for
  \<open>ORDER BY priority\<close>, and the loop appends them in that order. The query fails when
  the table does not exist.
\<close>

definition loadTasksFromDB :: "database \<Rightarrow> (error + Task list) \<times> database" where
  "loadTasksFromDB db =
     (case driver Query db of
        (ok, db1) \<Rightarrow>
          (case tasks_table db1 of
             None \<Rightarrow> (Inl QueryError, db1)
           | Some stored \<Rightarrow>
               if \<not> ok then (Inl QueryError, db1)
               else
                 (case scanLoop (order_by_priority db1 stored) [] db1 of
                    (r, db2) \<Rightarrow> (r, snd (driver RowsClose db2)))))"

subsection \<open>Initialisation, handler and startup\<close>

text \<open>
  \<open>initDB\<close>. \<open>CREATE TABLE IF NOT EXISTS\<close> creates the empty table when there is none
  and leaves an existing one alone. \<open>None\<close> is Go's nil error.
\<close>

definition initDB :: "runtime \<Rightarrow> database \<Rightarrow> error option \<times> database" where
  "initDB R db =
     (case driver Open db of
        (False, db1) \<Rightarrow> (Some OpenError, db1)
      | (True, db1) \<Rightarrow>
          (case driver Ping db1 of
             (False, db2) \<Rightarrow> (Some PingError, db2)
           | (True, db2) \<Rightarrow>
               (case driver ExecCreateTable db2 of
                  (False, db3) \<Rightarrow> (Some CreateTableError, db3)
                | (True, db3) \<Rightarrow>
                    (let rows = (case tasks_table db3 of None \<Rightarrow> [] | Some stored \<Rightarrow> stored) in
                     case driver QueryRowCount (db3\<lparr>tasks_table := Some rows\<rparr>) of
                       (False, db4) \<Rightarrow> (Some CountError, db4)
                     | (True, db4) \<Rightarrow>
                         if length rows = 0 then
                           (case saveTasksToDB (getInitialTasks (NowYear R)) db4 of
                              (Some err, db5) \<Rightarrow> (Some (SeedDBError err), db5)
                            | (None, db5) \<Rightarrow> (None, db5))
                         else (None, db4)))))"

definition apiTasksHandler_db :: "runtime \<Rightarrow> request \<Rightarrow> database \<Rightarrow> response \<times> database" where
  "apiTasksHandler_db R r db =
     (if Method r = ''GET'' then
        (case loadTasksFromDB db of
           (Inl err, db1) \<Rightarrow> (\<lparr>StatusCode = 500, Reply = LoadFailed err\<rparr>, db1)
         | (Inr tasks, db1) \<Rightarrow> (\<lparr>StatusCode = 200, Reply = TasksJSON tasks\<rparr>, db1))
      else if Method r = ''POST'' then
        (case Body r of
           None \<Rightarrow> (\<lparr>StatusCode = 400, Reply = ReadBodyFailed\<rparr>, db)
         | Some body \<Rightarrow>
             (case Unmarshal R body of
                None \<Rightarrow> (\<lparr>StatusCode = 400, Reply = ParseBodyFailed\<rparr>, db)
              | Some tasks \<Rightarrow>
                  (case saveTasksToDB tasks db of
                     (Some err, db1) \<Rightarrow> (\<lparr>StatusCode = 500, Reply = SaveFailed err\<rparr>, db1)
                   | (None, db1) \<Rightarrow> (\<lparr>StatusCode = 200, Reply = SavedMessage\<rparr>, db1))))
      else (\<lparr>StatusCode = 405, Reply = MethodNotSupported\<rparr>, db))"

definition main_db :: "runtime \<Rightarrow> bool \<Rightarrow> database \<Rightarrow> event list \<times> database" where
  "main_db R port_free db =
     (case initDB R db of
        (Some err, db1) \<Rightarrow> ([Fatalf_InitDB err], db1)
      | (None, db1) \<Rightarrow>
          ([ListenAndServe] @ (if port_free then [] else [Fatalf_ListenError]), db1))"

section \<open>Calls that do not fail\<close>

text \<open>
  \<open>next_calls_ok db n\<close>: the fault plan lets the next \<open>n\<close> calls to the database
  succeed.
\<close>

definition next_calls_ok :: "database \<Rightarrow> nat \<Rightarrow> bool" where
  "next_calls_ok db n = (\<forall>k<n. \<not> db_faults db (length (db_trace db) + k))"

text \<open>
  \<open>order_by_honoured db stored\<close>: for the rows \<open>stored\<close> the engine honours the
  clause \<open>ORDER BY priority\<close>: it delivers every stored row, each as often as it is
  stored, in ascending order of priority. The order of rows of equal priority is left
  open.
\<close>

definition order_by_honoured :: "database \<Rightarrow> Task list \<Rightarrow> bool" where
  "order_by_honoured db stored =
     (mset (order_by_priority db stored) = mset stored \<and>
      sorted (map Priority (order_by_priority db stored)))"

text \<open>
  An engine that scans the table by its primary key and sorts the rows by priority:
  rows of equal priority come in the order of their ids.
\<close>

definition rowid_order :: "Task list \<Rightarrow> Task list" where
  "rowid_order stored = sort_key Priority (sort_key ID stored)"

section \<open>Test data\<close>

text \<open>
  \<open>getTestTasks\<close> of \<open>main_test.go\<close>: the test date is 2026-02-01, the second task
  starts three days later.
\<close>

definition taskA :: Task where
  "taskA = \<lparr>ID = 101,
     Name = [CHR 0xE6, CHR 0xB8, CHR 0xAC, CHR 0xE8, CHR 0xA9, CHR 0xA6, CHR 0xE4, CHR 0xBB,
             CHR 0xBB, CHR 0xE5, CHR 0x8B, CHR 0x99, CHR 0x20, CHR 0x41],
     Start = ''2026-02-01'', DurationDays = 3, Color = ''#AAAAAA'', Priority = 5\<rparr>"

definition taskB :: Task where
  "taskB = \<lparr>ID = 102,
     Name = [CHR 0xE6, CHR 0xB8, CHR 0xAC, CHR 0xE8, CHR 0xA9, CHR 0xA6, CHR 0xE4, CHR 0xBB,
             CHR 0xBB, CHR 0xE5, CHR 0x8B, CHR 0x99, CHR 0x20, CHR 0x42],
     Start = ''2026-02-04'', DurationDays = 2, Color = ''#BBBBBB'', Priority = 1\<rparr>"

definition getTestTasks :: "Task list" where
  "getTestTasks = [taskA, taskB]"

text \<open>A task of id 103 that has the priority of \<open>taskB\<close>.\<close>

definition taskC :: Task where
  "taskC = \<lparr>ID = 103, Name = ''C'', Start = ''2026-02-06'', DurationDays = 4,
     Color = ''#DDDDDD'', Priority = 1\<rparr>"

text \<open>A third task that has the id of \<open>taskA\<close>.\<close>

definition taskA2 :: Task where
  "taskA2 = \<lparr>ID = 101, Name = ''copy'', Start = ''2026-02-02'', DurationDays = 1,
     Color = ''#CCCCCC'', Priority = 2\<rparr>"

text \<open>
  A runtime for the examples. Its JSON codec is a finite table: it knows the documents of
  five task lists and rejects every other input. Its clock stands in 2026.
\<close>

definition sample_docs :: "(string \<times> Task list) list" where
  "sample_docs =
     [(''doc-empty'', []),
      (''doc-A-B'', [taskA, taskB]),
      (''doc-B'', [taskB]),
      (''doc-A-B-A2'', [taskA, taskB, taskA2]),
      (''doc-defaults'', getInitialTasks 2026)]"

definition sample_runtime :: runtime where
  "sample_runtime =
     \<lparr>MarshalIndent = map_of (map (\<lambda>(doc, tasks). (tasks, doc)) sample_docs),
      Unmarshal = map_of sample_docs,
      NowYear = 2026\<rparr>"

text \<open>A disk without \<open>gantt.json\<close>, one that holds the two test tasks, one that
  holds two tasks with the same id, and one whose first call fails.\<close>

definition fresh_disk :: filesys where
  "fresh_disk = \<lparr>gantt_json = None, fs_trace = [], fs_faults = no_faults\<rparr>"

definition test_disk :: filesys where
  "test_disk = \<lparr>gantt_json = Some ''doc-A-B'', fs_trace = [], fs_faults = no_faults\<rparr>"

definition duplicate_disk :: filesys where
  "duplicate_disk = \<lparr>gantt_json = Some ''doc-A-B-A2'', fs_trace = [], fs_faults = no_faults\<rparr>"

definition broken_disk :: filesys where
  "broken_disk = \<lparr>gantt_json = Some ''doc-A-B'', fs_trace = [], fs_faults = (\<lambda>n. n = 0)\<rparr>"

text \<open>A database file that does not exist yet, one whose table holds the two test
  tasks, one where the fifth call fails, and one where the first call fails; the engine
  of each orders rows of equal priority by id.\<close>

definition fresh_db :: database where
  "fresh_db = \<lparr>tasks_table = None, db_trace = [], db_faults = no_faults,
     order_by_priority = rowid_order\<rparr>"

definition test_db :: database where
  "test_db = \<lparr>tasks_table = Some [taskA, taskB], db_trace = [], db_faults = no_faults,
     order_by_priority = rowid_order\<rparr>"

definition faulty_db :: database where
  "faulty_db = \<lparr>tasks_table = Some [taskA], db_trace = [], db_faults = (\<lambda>n. n = 4),
     order_by_priority = rowid_order\<rparr>"

definition broken_db :: database where
  "broken_db = \<lparr>tasks_table = None, db_trace = [], db_faults = (\<lambda>n. n = 0),
     order_by_priority = rowid_order\<rparr>"

section \<open>Two requests at once in the flat-file variant\<close>

text \<open>
  Each request runs in a goroutine of its own. To follow two of them,
  \<open>loadTasksFromFile\<close> and \<open>saveTasksToFile\<close> are cut into their steps, one for each
  statement that touches the file or \<open>dataMutex\<close>; a schedule says which goroutine
  takes the next step. \<open>os.WriteFile\<close> takes two steps, as its documentation says: it
  truncates the file, then writes the data. No file operation fails here.
\<close>

datatype pc =
    Load_ReadFile     \<comment> \<open>line 39: data, err := os.ReadFile(jsonFilePath)\<close>
  | Load_Lock         \<comment> \<open>line 55: dataMutex.Lock()\<close>
  | Load_Unmarshal    \<comment> \<open>line 59: json.Unmarshal(data, &tasks)\<close>
  | Load_Unlock       \<comment> \<open>line 56, deferred: dataMutex.Unlock(), and return\<close>
  | Save_Lock         \<comment> \<open>line 68: dataMutex.Lock()\<close>
  | Save_Marshal      \<comment> \<open>line 71: json.MarshalIndent(tasks, "", "  ")\<close>
  | Save_Truncate     \<comment> \<open>line 77: os.WriteFile opens the file and truncates it\<close>
  | Save_Write        \<comment> \<open>line 77: os.WriteFile writes data\<close>
  | Save_Unlock       \<comment> \<open>line 69, deferred: dataMutex.Unlock(), and return\<close>
  | Returned

datatype outcome = Loaded "Task list" | Saved | Failed error

text \<open>
  A goroutine: where it stands, its local variables \<open>tasks\<close> and \<open>data\<close>, whether its
  \<open>saveTasksToFile\<close> was called by \<open>loadTasksFromFile\<close> (line 46), and what it has
  returned.
\<close>

record goroutine =
  at :: pc
  tasks_var :: "Task list"
  data_var :: string
  called_by_load :: bool
  returned :: "outcome option"

text \<open>The process: the file, the holder of \<open>dataMutex\<close> if it is locked, and the
  goroutines.\<close>

record process =
  disk_file :: "string option"
  dataMutex :: "nat option"
  goroutines :: "goroutine list"

text \<open>
  One step of goroutine \<open>me\<close>; \<open>None\<close> when it cannot move (it waits for the mutex, or
  it has returned).
\<close>

definition step_goroutine ::
  "runtime \<Rightarrow> nat \<Rightarrow> goroutine \<Rightarrow> string option \<Rightarrow> nat option \<Rightarrow>
   (goroutine \<times> string option \<times> nat option) option" where
  "step_goroutine R me g f m =
     (case at g of
        Load_ReadFile \<Rightarrow>
          (case f of
             None \<Rightarrow>
               Some (g\<lparr>at := Save_Lock, tasks_var := getInitialTasks (NowYear R),
                        called_by_load := True\<rparr>, f, m)
           | Some bytes \<Rightarrow> Some (g\<lparr>at := Load_Lock, data_var := bytes\<rparr>, f, m))
      | Load_Lock \<Rightarrow> (if m = None then Some (g\<lparr>at := Load_Unmarshal\<rparr>, f, Some me) else None)
      | Load_Unmarshal \<Rightarrow>
          Some (g\<lparr>at := Load_Unlock,
                  returned := Some (case Unmarshal R (data_var g) of
                                      None \<Rightarrow> Failed ParseError
                                    | Some tasks \<Rightarrow> Loaded tasks)\<rparr>, f, m)
      | Load_Unlock \<Rightarrow> Some (g\<lparr>at := Returned\<rparr>, f, None)
      | Save_Lock \<Rightarrow> (if m = None then Some (g\<lparr>at := Save_Marshal\<rparr>, f, Some me) else None)
      | Save_Marshal \<Rightarrow>
          (case MarshalIndent R (tasks_var g) of
             None \<Rightarrow>
               Some (g\<lparr>at := Save_Unlock,
                       returned := Some (Failed (if called_by_load g
                                                 then SeedFileError SerializeError
                                                 else SerializeError))\<rparr>, f, m)
           | Some bytes \<Rightarrow> Some (g\<lparr>at := Save_Truncate, data_var := bytes\<rparr>, f, m))
      | Save_Truncate \<Rightarrow> Some (g\<lparr>at := Save_Write\<rparr>, Some [], m)
      | Save_Write \<Rightarrow>
          Some (g\<lparr>at := Save_Unlock,
                  returned := Some (if called_by_load g then Loaded (tasks_var g) else Saved)\<rparr>,
                Some (data_var g), m)
      | Save_Unlock \<Rightarrow> Some (g\<lparr>at := Returned\<rparr>, f, None)
      | Returned \<Rightarrow> None)"

definition step :: "runtime \<Rightarrow> nat \<Rightarrow> process \<Rightarrow> process option" where
  "step R i p =
     (if i < length (goroutines p) then
        (case step_goroutine R i (goroutines p ! i) (disk_file p) (dataMutex p) of
           None \<Rightarrow> None
         | Some (g, f, m) \<Rightarrow>
             Some \<lparr>disk_file = f, dataMutex = m, goroutines = (goroutines p)[i := g]\<rparr>)
      else None)"

fun run :: "runtime \<Rightarrow> nat list \<Rightarrow> process \<Rightarrow> process option" where
  "run R [] p = Some p"
| "run R (i # schedule) p =
     (case step R i p of None \<Rightarrow> None | Some p' \<Rightarrow> run R schedule p')"

text \<open>A goroutine that is about to call \<open>loadTasksFromFile()\<close>, and one that is about
  to call \<open>saveTasksToFile(tasks)\<close>.\<close>

definition load_call :: goroutine where
  "load_call = \<lparr>at = Load_ReadFile, tasks_var = [], data_var = [], called_by_load = False,
                 returned = None\<rparr>"

definition save_call :: "Task list \<Rightarrow> goroutine" where
  "save_call tasks = \<lparr>at = Save_Lock, tasks_var = tasks, data_var = [], called_by_load = False,
                       returned = None\<rparr>"

text \<open>
  A GET (goroutine 0) and a POST of \<open>[taskB]\<close> (goroutine 1) arrive together; the file
  holds the two test tasks.
\<close>

definition get_and_post :: process where
  "get_and_post =
     \<lparr>disk_file = Some ''doc-A-B'', dataMutex = None, goroutines = [load_call, save_call [taskB]]\<rparr>"

section \<open>Helper lemmas\<close>

lemma digit_char_simps:
  "digit_char 0 = CHR ''0''" "digit_char 1 = CHR ''1''" "digit_char 2 = CHR ''2''"
  "digit_char 3 = CHR ''3''" "digit_char 4 = CHR ''4''" "digit_char 5 = CHR ''5''"
  "digit_char 6 = CHR ''6''" "digit_char 7 = CHR ''7''" "digit_char 8 = CHR ''8''"
  "digit_char 9 = CHR ''9''" "digit_char (Suc 0) = CHR ''1''"
  by code_simp+

lemma deleteLoop_eq:
  "deleteLoop i ts (f, new) = (f \<or> i \<in> set (map ID ts), new @ filter (\<lambda>t. ID t \<noteq> i) ts)"
  by (induction ts arbitrary: f new) auto

lemma driver_simps [simp]:
  "tasks_table (snd (driver c db)) = tasks_table db"
  "db_faults (snd (driver c db)) = db_faults db"
  "order_by_priority (snd (driver c db)) = order_by_priority db"
  "db_trace (snd (driver c db)) = db_trace db @ [c]"
  "fst (driver c db) = (\<not> db_faults db (length (db_trace db)))"
  by (simp_all add: driver_def)

lemma next_calls_ok_0 [simp]: "next_calls_ok db 0"
  by (simp add: next_calls_ok_def)

lemma next_calls_ok_Suc:
  "next_calls_ok db (Suc n) =
     (\<not> db_faults db (length (db_trace db)) \<and> next_calls_ok (snd (driver c db)) n)"
  by (simp add: next_calls_ok_def All_less_Suc2)

lemma next_calls_ok_no_faults: "db_faults db = no_faults \<Longrightarrow> next_calls_ok db n"
  by (simp add: next_calls_ok_def no_faults_def)

subsection \<open>The insert loop\<close>

lemma insertLoop_keeps:
  "insertLoop tasks rows db = (r, db') \<Longrightarrow>
     tasks_table db' = tasks_table db \<and> db_faults db' = db_faults db \<and>
     order_by_priority db' = order_by_priority db"
proof (induction tasks arbitrary: rows db)
  case Nil
  then show ?case by auto
next
  case (Cons t ts)
  show ?case
  proof (cases "fst (driver (StmtExec t) db) \<and> ID t \<notin> set (map ID rows)")
    case True
    with Cons.prems have "insertLoop ts (rows @ [t]) (snd (driver (StmtExec t) db)) = (r, db')"
      by (simp add: case_prod_beta)
    from Cons.IH [OF this] show ?thesis by simp
  next
    case False
    with Cons.prems show ?thesis by (auto simp: case_prod_beta)
  qed
qed

lemma insertLoop_Inr:
  "insertLoop tasks rows db = (Inr rows', db') \<Longrightarrow>
     rows' = rows @ tasks \<and> db_trace db' = db_trace db @ map StmtExec tasks \<and>
     next_calls_ok db (length tasks) \<and> distinct (map ID tasks) \<and>
     set (map ID tasks) \<inter> set (map ID rows) = {}"
proof (induction tasks arbitrary: rows db)
  case Nil
  then show ?case by auto
next
  case (Cons t ts)
  show ?case
  proof (cases "fst (driver (StmtExec t) db) \<and> ID t \<notin> set (map ID rows)")
    case True
    with Cons.prems
    have "insertLoop ts (rows @ [t]) (snd (driver (StmtExec t) db)) = (Inr rows', db')"
      by (simp add: case_prod_beta)
    from Cons.IH [OF this] True show ?thesis
      by (auto simp: next_calls_ok_Suc [where c = "StmtExec t"])
  next
    case False
    with Cons.prems show ?thesis by (auto simp: case_prod_beta)
  qed
qed

lemma insertLoop_Inl:
  "insertLoop tasks rows db = (Inl e, db') \<Longrightarrow>
     \<exists>k<length tasks. e = InsertError (ID (tasks ! k)) \<and>
       db_trace db' = db_trace db @ map StmtExec (take (Suc k) tasks) @ [Rollback]"
proof (induction tasks arbitrary: rows db)
  case Nil
  then show ?case by auto
next
  case (Cons t ts)
  show ?case
  proof (cases "fst (driver (StmtExec t) db) \<and> ID t \<notin> set (map ID rows)")
    case True
    with Cons.prems
    have "insertLoop ts (rows @ [t]) (snd (driver (StmtExec t) db)) = (Inl e, db')"
      by (simp add: case_prod_beta)
    from Cons.IH [OF this] obtain k where k: "k < length ts" "e = InsertError (ID (ts ! k))"
      "db_trace db' =
         db_trace (snd (driver (StmtExec t) db)) @ map StmtExec (take (Suc k) ts) @ [Rollback]"
      by blast
    then have "Suc k < length (t # ts) \<and> e = InsertError (ID ((t # ts) ! Suc k)) \<and>
       db_trace db' = db_trace db @ map StmtExec (take (Suc (Suc k)) (t # ts)) @ [Rollback]"
      by simp
    then show ?thesis by blast
  next
    case False
    with Cons.prems have "0 < length (t # ts) \<and> e = InsertError (ID ((t # ts) ! 0)) \<and>
       db_trace db' = db_trace db @ map StmtExec (take (Suc 0) (t # ts)) @ [Rollback]"
      by (auto simp: case_prod_beta)
    then show ?thesis by blast
  qed
qed

lemma insertLoop_complete:
  "next_calls_ok db (length tasks) \<Longrightarrow> distinct (map ID (rows @ tasks)) \<Longrightarrow>
     insertLoop tasks rows db =
       (Inr (rows @ tasks), db\<lparr>db_trace := db_trace db @ map StmtExec tasks\<rparr>)"
proof (induction tasks arbitrary: rows db)
  case Nil
  then show ?case by simp
next
  case (Cons t ts)
  from Cons.prems have d: "distinct (map ID ((rows @ [t]) @ ts))"
    and n: "ID t \<notin> set (map ID rows)"
    by auto
  from Cons.prems(1) have ok: "\<not> db_faults db (length (db_trace db))"
    and rest: "next_calls_ok (snd (driver (StmtExec t) db)) (length ts)"
    by (simp_all add: next_calls_ok_Suc [where c = "StmtExec t"])
  show ?case
    using Cons.IH [OF rest d] n ok by (simp add: driver_def)
qed

subsection \<open>saveTasksToDB, step by step\<close>

lemma saveTasksToDB_unfold:
  "saveTasksToDB tasks db =
     (if db_faults db (length (db_trace db))
      then (Some TransactionError, db\<lparr>db_trace := db_trace db @ [Begin]\<rparr>)
      else if db_faults db (Suc (length (db_trace db))) \<or> tasks_table db = None
      then (Some DeleteError, db\<lparr>db_trace := db_trace db @ [Begin, ExecDelete, Rollback]\<rparr>)
      else if db_faults db (Suc (Suc (length (db_trace db))))
      then (Some PrepareError,
            db\<lparr>db_trace := db_trace db @ [Begin, ExecDelete, Prepare, Rollback]\<rparr>)
      else
        (case insertLoop tasks [] (db\<lparr>db_trace := db_trace db @ [Begin, ExecDelete, Prepare]\<rparr>) of
           (Inl err, db4) \<Rightarrow> (Some err, db4\<lparr>db_trace := db_trace db4 @ [StmtClose]\<rparr>)
         | (Inr rows, db4) \<Rightarrow>
             if db_faults db4 (length (db_trace db4))
             then (Some CommitError, db4\<lparr>db_trace := db_trace db4 @ [Commit, StmtClose]\<rparr>)
             else (None, db4\<lparr>tasks_table := Some rows,
                              db_trace := db_trace db4 @ [Commit, StmtClose]\<rparr>)))"
  by (simp add: saveTasksToDB_def driver_def split: prod.splits sum.splits)

lemma saveTasksToDB_failure_keeps_table:
  assumes "saveTasksToDB tasks db = (Some e, db')"
  shows "tasks_table db' = tasks_table db"
proof -
  obtain r4 db4 where il: "insertLoop tasks [] (db\<lparr>db_trace := db_trace db @ [Begin, ExecDelete, Prepare]\<rparr>) = (r4, db4)"
    by (cases "insertLoop tasks [] (db\<lparr>db_trace := db_trace db @ [Begin, ExecDelete, Prepare]\<rparr>)")
  from insertLoop_keeps [OF il] have "tasks_table db4 = tasks_table db" by simp
  with assms il show ?thesis
    by (auto simp: saveTasksToDB_unfold split: if_splits sum.splits)
qed

lemma saveTasksToDB_success:
  assumes "saveTasksToDB tasks db = (None, db')"
  shows "tasks_table db' = Some tasks"
    and "db_trace db' = db_trace db @ [Begin, ExecDelete, Prepare] @ map StmtExec tasks @ [Commit, StmtClose]"
    and "db_faults db' = db_faults db"
    and "tasks_table db \<noteq> None" and "distinct (map ID tasks)"
    and "next_calls_ok db (length tasks + 4)"
proof -
  let ?db3 = "db\<lparr>db_trace := db_trace db @ [Begin, ExecDelete, Prepare]\<rparr>"
  obtain r4 db4 where il: "insertLoop tasks [] ?db3 = (r4, db4)"
    by (cases "insertLoop tasks [] ?db3")
  from assms il obtain rows where r4: "r4 = Inr rows"
    and f: "\<not> db_faults db (length (db_trace db))" "\<not> db_faults db (Suc (length (db_trace db)))"
       "\<not> db_faults db (Suc (Suc (length (db_trace db))))" "\<not> db_faults db4 (length (db_trace db4))"
    and t: "tasks_table db \<noteq> None"
    and db': "db' = db4\<lparr>tasks_table := Some rows, db_trace := db_trace db4 @ [Commit, StmtClose]\<rparr>"
    by (auto simp: saveTasksToDB_unfold split: if_splits sum.splits)
  from insertLoop_Inr [OF il [unfolded r4]] insertLoop_keeps [OF il]
  have i: "rows = tasks" "db_trace db4 = db_trace ?db3 @ map StmtExec tasks"
    "next_calls_ok ?db3 (length tasks)" "distinct (map ID tasks)" "db_faults db4 = db_faults db"
    by simp_all
  show "tasks_table db' = Some tasks" using db' i by simp
  show "db_trace db' = db_trace db @ [Begin, ExecDelete, Prepare] @ map StmtExec tasks @ [Commit, StmtClose]"
    using db' i by simp
  show "db_faults db' = db_faults db" using db' i by simp
  show "tasks_table db \<noteq> None" by (rule t)
  show "distinct (map ID tasks)" by (rule i)
  have c: "\<not> db_faults db (Suc (Suc (Suc (length (db_trace db) + length tasks))))"
    using f(4) i(5) i(2) by simp
  have m: "\<not> db_faults db (Suc (Suc (Suc (length (db_trace db) + j))))" if "j < length tasks" for j
    using i(3) that by (simp add: next_calls_ok_def)
  show "next_calls_ok db (length tasks + 4)"
    unfolding next_calls_ok_def
  proof (intro allI impI)
    fix k assume k: "k < length tasks + 4"
    then consider "k = 0" | "k = 1" | "k = 2" | "3 \<le> k \<and> k - 3 < length tasks"
      | "k = 3 + length tasks"
      by linarith
    then show "\<not> db_faults db (length (db_trace db) + k)"
    proof cases
      case 1 with f(1) show ?thesis by simp
    next
      case 2 with f(2) show ?thesis by simp
    next
      case 3
      then have "length (db_trace db) + k = Suc (Suc (length (db_trace db)))" by simp
      with f(3) show ?thesis by simp
    next
      case 4
      then obtain j where j: "k = 3 + j" "j < length tasks"
        by (metis le_add_diff_inverse)
      have "length (db_trace db) + (3 + j) = Suc (Suc (Suc (length (db_trace db) + j)))"
        by simp
      with m [OF j(2)] show ?thesis unfolding j(1) by metis
    next
      case 5
      have "length (db_trace db) + (3 + length tasks) =
          Suc (Suc (Suc (length (db_trace db) + length tasks)))"
        by simp
      with c show ?thesis unfolding 5 by metis
    qed
  qed
qed

lemma saveTasksToDB_complete:
  assumes t: "tasks_table db \<noteq> None" and d: "distinct (map ID tasks)"
    and ok: "next_calls_ok db (length tasks + 4)"
  shows "saveTasksToDB tasks db =
    (None, db\<lparr>tasks_table := Some tasks,
               db_trace := db_trace db @ [Begin, ExecDelete, Prepare] @ map StmtExec tasks @
                 [Commit, StmtClose]\<rparr>)"
proof -
  let ?db3 = "db\<lparr>db_trace := db_trace db @ [Begin, ExecDelete, Prepare]\<rparr>"
  have f: "\<not> db_faults db (length (db_trace db) + k)" if "k < length tasks + 4" for k
    using ok that by (simp add: next_calls_ok_def)
  from f [of 0] f [of 1] f [of 2]
  have f012: "\<not> db_faults db (length (db_trace db))" "\<not> db_faults db (Suc (length (db_trace db)))"
    "\<not> db_faults db (Suc (Suc (length (db_trace db))))"
    by simp_all
  have e3: "length (db_trace db) + (3 + j) = Suc (Suc (Suc (length (db_trace db) + j)))" for j
    by simp
  have "\<not> db_faults db (Suc (Suc (Suc (length (db_trace db) + j))))" if "j < length tasks" for j
    using f [of "3 + j"] that unfolding e3 by simp
  then have ok3: "next_calls_ok ?db3 (length tasks)"
    by (simp add: next_calls_ok_def)
  have il: "insertLoop tasks [] ?db3 =
      (Inr tasks, ?db3\<lparr>db_trace := db_trace ?db3 @ map StmtExec tasks\<rparr>)"
    using insertLoop_complete [OF ok3, of "[]"] d by simp
  have c: "\<not> db_faults db (Suc (Suc (Suc (length (db_trace db) + length tasks))))"
    using f [of "3 + length tasks"] unfolding e3 by simp
  show ?thesis
    using f012 t c by (simp add: saveTasksToDB_unfold il)
qed

lemma saveTasksToDB_error_traces:
  assumes "saveTasksToDB tasks db = (Some e, db')"
  shows "e = TransactionError \<Longrightarrow> db_trace db' = db_trace db @ [Begin]"
    and "e = DeleteError \<Longrightarrow> db_trace db' = db_trace db @ [Begin, ExecDelete, Rollback]"
    and "e = PrepareError \<Longrightarrow> db_trace db' = db_trace db @ [Begin, ExecDelete, Prepare, Rollback]"
    and "e = InsertError i \<Longrightarrow> \<exists>k<length tasks. i = ID (tasks ! k) \<and>
           db_trace db' = db_trace db @ [Begin, ExecDelete, Prepare] @
             map StmtExec (take (Suc k) tasks) @ [Rollback, StmtClose]"
proof -
  let ?db3 = "db\<lparr>db_trace := db_trace db @ [Begin, ExecDelete, Prepare]\<rparr>"
  obtain r4 db4 where il: "insertLoop tasks [] ?db3 = (r4, db4)"
    by (cases "insertLoop tasks [] ?db3")
  have inl: "\<exists>k<length tasks. e' = InsertError (ID (tasks ! k)) \<and>
       db_trace db4 = db_trace ?db3 @ map StmtExec (take (Suc k) tasks) @ [Rollback]"
    if "r4 = Inl e'" for e'
    using insertLoop_Inl [OF il [unfolded that]] .
  show "e = TransactionError \<Longrightarrow> db_trace db' = db_trace db @ [Begin]"
    using assms il inl by (auto simp: saveTasksToDB_unfold split: if_splits sum.splits)
  show "e = DeleteError \<Longrightarrow> db_trace db' = db_trace db @ [Begin, ExecDelete, Rollback]"
    using assms il inl by (auto simp: saveTasksToDB_unfold split: if_splits sum.splits)
  show "e = PrepareError \<Longrightarrow> db_trace db' = db_trace db @ [Begin, ExecDelete, Prepare, Rollback]"
    using assms il inl by (auto simp: saveTasksToDB_unfold split: if_splits sum.splits)
  show "e = InsertError i \<Longrightarrow> \<exists>k<length tasks. i = ID (tasks ! k) \<and>
           db_trace db' = db_trace db @ [Begin, ExecDelete, Prepare] @
             map StmtExec (take (Suc k) tasks) @ [Rollback, StmtClose]"
    using assms il inl by (auto simp: saveTasksToDB_unfold split: if_splits sum.splits)
qed

lemma next_calls_ok_three:
  "next_calls_ok db (Suc (Suc (Suc n))) =
     (\<not> db_faults db (length (db_trace db)) \<and> \<not> db_faults db (Suc (length (db_trace db))) \<and>
      \<not> db_faults db (Suc (Suc (length (db_trace db)))) \<and>
      next_calls_ok (db\<lparr>db_trace := db_trace db @ [a, b, c]\<rparr>) n)"
  by (simp add: next_calls_ok_def All_less_Suc2)

lemma saveTasksToDB_commit_error:
  assumes "saveTasksToDB tasks db = (Some CommitError, db')"
  shows "tasks_table db \<noteq> None \<and> distinct (map ID tasks) \<and>
         next_calls_ok db (length tasks + 3) \<and>
         db_trace db' = db_trace db @ [Begin, ExecDelete, Prepare] @ map StmtExec tasks @
           [Commit, StmtClose]"
proof -
  let ?db3 = "db\<lparr>db_trace := db_trace db @ [Begin, ExecDelete, Prepare]\<rparr>"
  obtain r4 db4 where il: "insertLoop tasks [] ?db3 = (r4, db4)"
    by (cases "insertLoop tasks [] ?db3")
  have never: "r4 \<noteq> Inl CommitError"
    using insertLoop_Inl [of tasks "[]" ?db3 CommitError db4] il by auto
  from assms il never obtain rows where r4: "r4 = Inr rows"
    and f: "\<not> db_faults db (length (db_trace db))" "\<not> db_faults db (Suc (length (db_trace db)))"
       "\<not> db_faults db (Suc (Suc (length (db_trace db))))"
    and t: "tasks_table db \<noteq> None"
    and db': "db' = db4\<lparr>db_trace := db_trace db4 @ [Commit, StmtClose]\<rparr>"
    by (auto simp: saveTasksToDB_unfold split: if_splits sum.splits)
  from insertLoop_Inr [OF il [unfolded r4]]
  have i: "db_trace db4 = db_trace ?db3 @ map StmtExec tasks"
    "next_calls_ok ?db3 (length tasks)" "distinct (map ID tasks)"
    by simp_all
  have "next_calls_ok db (Suc (Suc (Suc (length tasks))))"
    using f i(2) by (simp add: next_calls_ok_three [where a = Begin and b = ExecDelete and c = Prepare])
  moreover have "length tasks + 3 = Suc (Suc (Suc (length tasks)))" by simp
  ultimately have "next_calls_ok db (length tasks + 3)" by metis
  with t i db' show ?thesis by simp
qed

lemma saveTasksToDB_error_kinds:
  assumes "saveTasksToDB tasks db = (Some e, db')"
  shows "e = TransactionError \<or> e = DeleteError \<or> e = PrepareError \<or> e = CommitError \<or>
         (\<exists>i. e = InsertError i)"
proof -
  let ?db3 = "db\<lparr>db_trace := db_trace db @ [Begin, ExecDelete, Prepare]\<rparr>"
  obtain r4 db4 where il: "insertLoop tasks [] ?db3 = (r4, db4)"
    by (cases "insertLoop tasks [] ?db3")
  have "\<exists>i. e' = InsertError i" if "r4 = Inl e'" for e'
    using insertLoop_Inl [OF il [unfolded that]] by blast
  with assms il show ?thesis
    by (auto simp: saveTasksToDB_unfold split: if_splits sum.splits)
qed

section \<open>The relational store replaces the table in one transaction\<close>

text \<open>
  Claim C1. \<open>saveTasksToDB\<close> runs as one transaction: begin, delete all rows, prepare
  the insert statement, execute it once for each task of the input in order, commit. It
  returns no error exactly when the table exists, the ids of the input are distinct and
  none of these calls fails; the table then holds exactly the input. When it returns an
  error the table is as it was before the call. A failed delete, prepare or insert is
  followed by a rollback; when begin fails there is no transaction to roll back and no
  further call is made. The error of a failed commit is returned only when every step
  before the commit has succeeded.
\<close>

theorem saveTasksToDB_transaction:
  assumes "saveTasksToDB tasks db = (r, db')"
  shows "(r = None \<longleftrightarrow>
            tasks_table db \<noteq> None \<and> distinct (map ID tasks) \<and>
            next_calls_ok db (length tasks + 4)) \<and>
         (r = None \<longrightarrow>
            tasks_table db' = Some tasks \<and>
            db_trace db' = db_trace db @ [Begin, ExecDelete, Prepare] @ map StmtExec tasks @
              [Commit, StmtClose]) \<and>
         (r \<noteq> None \<longrightarrow> tasks_table db' = tasks_table db) \<and>
         (r = Some TransactionError \<longrightarrow> db_trace db' = db_trace db @ [Begin]) \<and>
         (r = Some DeleteError \<longrightarrow>
            db_trace db' = db_trace db @ [Begin, ExecDelete, Rollback]) \<and>
         (r = Some PrepareError \<longrightarrow>
            db_trace db' = db_trace db @ [Begin, ExecDelete, Prepare, Rollback]) \<and>
         (\<forall>i. r = Some (InsertError i) \<longrightarrow>
            (\<exists>k<length tasks. i = ID (tasks ! k) \<and>
               db_trace db' = db_trace db @ [Begin, ExecDelete, Prepare] @
                 map StmtExec (take (Suc k) tasks) @ [Rollback, StmtClose])) \<and>
         (r = Some CommitError \<longrightarrow>
            tasks_table db \<noteq> None \<and> distinct (map ID tasks) \<and>
            next_calls_ok db (length tasks + 3) \<and>
            db_trace db' = db_trace db @ [Begin, ExecDelete, Prepare] @ map StmtExec tasks @
              [Commit, StmtClose]) \<and>
         (r = None \<or> r = Some TransactionError \<or> r = Some DeleteError \<or>
          r = Some PrepareError \<or> r = Some CommitError \<or> (\<exists>i. r = Some (InsertError i)))"
proof (cases r)
  case None
  with assms have s: "saveTasksToDB tasks db = (None, db')" by simp
  from saveTasksToDB_success [OF s] None show ?thesis by simp
next
  case (Some e)
  with assms have s: "saveTasksToDB tasks db = (Some e, db')" by simp
  have "\<not> (tasks_table db \<noteq> None \<and> distinct (map ID tasks) \<and>
      next_calls_ok db (length tasks + 4))"
  proof
    assume "tasks_table db \<noteq> None \<and> distinct (map ID tasks) \<and>
      next_calls_ok db (length tasks + 4)"
    then have "fst (saveTasksToDB tasks db) = None"
      by (simp add: saveTasksToDB_complete)
    with s show False by simp
  qed
  moreover have "e = CommitError \<longrightarrow>
      tasks_table db \<noteq> None \<and> distinct (map ID tasks) \<and>
      next_calls_ok db (length tasks + 3) \<and>
      db_trace db' = db_trace db @ [Begin, ExecDelete, Prepare] @ map StmtExec tasks @
        [Commit, StmtClose]"
    using saveTasksToDB_commit_error [of tasks db db'] s by blast
  ultimately show ?thesis
    using saveTasksToDB_failure_keeps_table [OF s] saveTasksToDB_error_traces [OF s]
      saveTasksToDB_error_kinds [OF s] Some
    by simp
qed

theorem saveTasksToDB_transaction_witness:
  "saveTasksToDB getTestTasks faulty_db =
     (Some (InsertError 102),
      faulty_db\<lparr>db_trace := [Begin, ExecDelete, Prepare, StmtExec taskA, StmtExec taskB,
                               Rollback, StmtClose]\<rparr>) \<and>
   tasks_table (snd (saveTasksToDB getTestTasks faulty_db)) = Some [taskA] \<and>
   saveTasksToDB getTestTasks test_db =
     (None,
      test_db\<lparr>tasks_table := Some getTestTasks,
              db_trace := [Begin, ExecDelete, Prepare, StmtExec taskA, StmtExec taskB,
                           Commit, StmtClose]\<rparr>)"
proof -
  have f: "saveTasksToDB getTestTasks faulty_db =
     (Some (InsertError 102),
      faulty_db\<lparr>db_trace := [Begin, ExecDelete, Prepare, StmtExec taskA, StmtExec taskB,
                               Rollback, StmtClose]\<rparr>)"
    by (simp add: saveTasksToDB_def driver_def faulty_db_def getTestTasks_def taskA_def taskB_def)
  have t: "saveTasksToDB getTestTasks test_db =
     (None,
      test_db\<lparr>tasks_table := Some getTestTasks,
              db_trace := [Begin, ExecDelete, Prepare, StmtExec taskA, StmtExec taskB,
                           Commit, StmtClose]\<rparr>)"
    by (simp add: saveTasksToDB_def driver_def test_db_def getTestTasks_def taskA_def taskB_def
        no_faults_def)
  from saveTasksToDB_transaction [OF f] saveTasksToDB_transaction [OF t] f t
  show ?thesis by (simp add: faulty_db_def)
qed

subsection \<open>Calls that meet no fault\<close>

lemma driver_ok:
  "db_faults db = no_faults \<Longrightarrow> driver c db = (True, db\<lparr>db_trace := db_trace db @ [c]\<rparr>)"
  by (simp add: driver_def no_faults_def)

lemma os_ReadFile_ok:
  "fs_faults fs = no_faults \<Longrightarrow>
     os_ReadFile fs =
       (case gantt_json fs of None \<Rightarrow> NotExist | Some data \<Rightarrow> Data data,
        fs\<lparr>fs_trace := fs_trace fs @ [ReadFile]\<rparr>)"
  by (simp add: os_ReadFile_def no_faults_def Let_def split: option.splits)

lemma os_WriteFile_ok:
  "fs_faults fs = no_faults \<Longrightarrow>
     os_WriteFile data fs =
       (True, fs\<lparr>gantt_json := Some data, fs_trace := fs_trace fs @ [WriteFile data]\<rparr>)"
  by (simp add: os_WriteFile_def no_faults_def Let_def)

lemma saveTasksToFile_ok:
  "fs_faults fs = no_faults \<Longrightarrow> MarshalIndent R tasks = Some doc \<Longrightarrow>
     saveTasksToFile R tasks fs =
       (None, fs\<lparr>gantt_json := Some doc, fs_trace := fs_trace fs @ [WriteFile doc]\<rparr>)"
  by (simp add: saveTasksToFile_def os_WriteFile_ok)

lemma saveTasksToFile_unserializable:
  "MarshalIndent R tasks = None \<Longrightarrow> saveTasksToFile R tasks fs = (Some SerializeError, fs)"
  by (simp add: saveTasksToFile_def)

lemma loadTasksFromFile_existing:
  "fs_faults fs = no_faults \<Longrightarrow> gantt_json fs = Some doc \<Longrightarrow>
     loadTasksFromFile R fs =
       (case Unmarshal R doc of None \<Rightarrow> Inl ParseError | Some tasks \<Rightarrow> Inr tasks,
        fs\<lparr>fs_trace := fs_trace fs @ [ReadFile]\<rparr>)"
  by (simp add: loadTasksFromFile_def os_ReadFile_ok split: option.splits)

lemma loadTasksFromFile_absent:
  "fs_faults fs = no_faults \<Longrightarrow> gantt_json fs = None \<Longrightarrow>
     loadTasksFromFile R fs =
       (case MarshalIndent R (getInitialTasks (NowYear R)) of
          None \<Rightarrow> (Inl (SeedFileError SerializeError), fs\<lparr>fs_trace := fs_trace fs @ [ReadFile]\<rparr>)
        | Some doc \<Rightarrow>
            (Inr (getInitialTasks (NowYear R)),
             fs\<lparr>gantt_json := Some doc, fs_trace := fs_trace fs @ [ReadFile, WriteFile doc]\<rparr>))"
  by (simp add: loadTasksFromFile_def os_ReadFile_ok saveTasksToFile_def os_WriteFile_ok
      split: option.splits)

lemma loadTasksFromFile_determined:
  assumes "fs_faults a = no_faults" "fs_faults b = no_faults" "gantt_json a = gantt_json b"
  shows "fst (loadTasksFromFile R a) = fst (loadTasksFromFile R b)"
proof (cases "gantt_json a")
  case None
  with assms have b: "gantt_json b = None" by simp
  show ?thesis
    by (simp add: loadTasksFromFile_absent [OF assms(1) None]
        loadTasksFromFile_absent [OF assms(2) b] split: option.splits)
next
  case (Some doc)
  with assms have b: "gantt_json b = Some doc" by simp
  show ?thesis
    by (simp add: loadTasksFromFile_existing [OF assms(1) Some]
        loadTasksFromFile_existing [OF assms(2) b])
qed

lemma scanLoop_ok:
  "db_faults db = no_faults \<Longrightarrow>
     fst (scanLoop rows tasks db) = Inr (tasks @ rows) \<and>
     tasks_table (snd (scanLoop rows tasks db)) = tasks_table db \<and>
     db_faults (snd (scanLoop rows tasks db)) = no_faults"
proof (induction rows arbitrary: tasks db)
  case Nil
  then show ?case by simp
next
  case (Cons row rows)
  let ?db2 = "db\<lparr>db_trace := db_trace db @ [RowsNext, RowsScan]\<rparr>"
  have "db_faults ?db2 = no_faults" using Cons.prems by simp
  from Cons.IH [OF this, of "tasks @ [row]"] Cons.prems show ?case
    by (simp add: driver_ok)
qed

lemma scanLoop_prefix:
  "scanLoop rows tasks db = (Inr ts, db') \<Longrightarrow> \<exists>k. ts = tasks @ take k rows"
proof (induction rows arbitrary: tasks db)
  case Nil
  then show ?case by auto
next
  case (Cons row rows)
  show ?case
  proof (cases "fst (driver RowsNext db)")
    case False
    with Cons.prems have "ts = tasks @ take 0 (row # rows)"
      by (auto simp: driver_def)
    then show ?thesis by blast
  next
    case True
    let ?db2 = "snd (driver RowsScan (snd (driver RowsNext db)))"
    from True Cons.prems have "scanLoop rows (tasks @ [row]) ?db2 = (Inr ts, db')"
      by (auto simp: driver_def split: if_splits bool.splits)
    from Cons.IH [OF this] obtain k where "ts = (tasks @ [row]) @ take k rows" by blast
    then have "ts = tasks @ take (Suc k) (row # rows)" by simp
    then show ?thesis by blast
  qed
qed

lemma loadTasksFromDB_ok:
  "db_faults db = no_faults \<Longrightarrow>
     fst (loadTasksFromDB db) =
       (case tasks_table db of None \<Rightarrow> Inl QueryError
        | Some stored \<Rightarrow> Inr (order_by_priority db stored))"
  using scanLoop_ok [of "db\<lparr>db_trace := db_trace db @ [Query]\<rparr>" _ "[]"]
  by (simp add: loadTasksFromDB_def driver_ok case_prod_beta split: option.splits)

lemma loadTasksFromDB_prefix:
  assumes "loadTasksFromDB db = (Inr ts, db')"
  shows "\<exists>stored k. tasks_table db = Some stored \<and> ts = take k (order_by_priority db stored)"
proof -
  from assms obtain stored db2 where s: "tasks_table db = Some stored"
    and l: "scanLoop (order_by_priority db stored) [] (snd (driver Query db)) = (Inr ts, db2)"
    by (auto simp: loadTasksFromDB_def driver_def split: option.splits if_splits prod.splits)
  from scanLoop_prefix [OF l] s show ?thesis by auto
qed

lemma loadTasksFromDB_sorted:
  assumes "loadTasksFromDB db = (Inr ts, db')" and "tasks_table db = Some stored"
    and "order_by_honoured db stored"
  shows "sorted (map Priority ts)"
proof -
  from loadTasksFromDB_prefix [OF assms(1)] assms(2)
  obtain k where "ts = take k (order_by_priority db stored)" by auto
  then have "map Priority ts = take k (map Priority (order_by_priority db stored))"
    by (simp add: take_map)
  with assms(3) show ?thesis by (simp add: order_by_honoured_def sorted_wrt_take)
qed

lemma rowid_order_honoured:
  "order_by_priority db = rowid_order \<Longrightarrow> order_by_honoured db stored"
  by (simp add: order_by_honoured_def rowid_order_def)

text \<open>Among rows of distinct priorities only one order is sorted.\<close>

lemma sorted_by_priority_unique:
  assumes d: "distinct (map Priority ys)" and m: "mset xs = mset ys"
    and s: "sorted (map Priority xs)"
  shows "xs = sort_key Priority ys"
proof -
  let ?zs = "sort_key Priority ys"
  have mz: "mset ?zs = mset ys" by simp
  have "mset (map Priority xs) = mset (map Priority ys)" using m by simp
  then have dx: "distinct (map Priority xs)" and sx: "set (map Priority xs) = set (map Priority ys)"
    using d by (metis mset_eq_imp_distinct_iff, metis set_mset_mset)
  have "mset (map Priority ?zs) = mset (map Priority ys)" using mz by simp
  then have dz: "distinct (map Priority ?zs)" and sz: "set (map Priority ?zs) = set (map Priority ys)"
    using d by (metis mset_eq_imp_distinct_iff, metis set_mset_mset)
  have e: "map Priority xs = map Priority ?zs"
    using s dx dz sx sz by (intro sorted_distinct_set_unique) (simp_all add: sorted_sort_key)
  have "set xs = set ys" using m by (metis set_mset_mset)
  moreover have "inj_on Priority (set ys)" using d by (simp add: distinct_map)
  ultimately have "inj_on Priority (set xs \<union> set ?zs)" by simp
  from inj_on_map_eq_map [OF this] e show ?thesis by simp
qed

lemma saveTasksToDB_engine:
  "order_by_priority (snd (saveTasksToDB tasks db)) = order_by_priority db"
proof -
  let ?db3 = "db\<lparr>db_trace := db_trace db @ [Begin, ExecDelete, Prepare]\<rparr>"
  obtain r4 db4 where il: "insertLoop tasks [] ?db3 = (r4, db4)"
    by (cases "insertLoop tasks [] ?db3")
  from insertLoop_keeps [OF il] have "order_by_priority db4 = order_by_priority db" by simp
  with il show ?thesis
    by (auto simp: saveTasksToDB_unfold split: if_splits sum.splits)
qed

lemma saveTasksToDB_faults:
  "db_faults (snd (saveTasksToDB tasks db)) = db_faults db"
proof -
  let ?db3 = "db\<lparr>db_trace := db_trace db @ [Begin, ExecDelete, Prepare]\<rparr>"
  obtain r4 db4 where il: "insertLoop tasks [] ?db3 = (r4, db4)"
    by (cases "insertLoop tasks [] ?db3")
  from insertLoop_keeps [OF il] have "db_faults db4 = db_faults db" by simp
  with il show ?thesis
    by (auto simp: saveTasksToDB_unfold split: if_splits sum.splits)
qed

lemma saveTasksToDB_ok:
  assumes "db_faults db = no_faults" "tasks_table db \<noteq> None" "distinct (map ID tasks)"
  shows "saveTasksToDB tasks db =
    (None, db\<lparr>tasks_table := Some tasks,
               db_trace := db_trace db @ [Begin, ExecDelete, Prepare] @ map StmtExec tasks @
                 [Commit, StmtClose]\<rparr>)"
  using assms by (simp add: saveTasksToDB_complete next_calls_ok_no_faults)

section \<open>Saving and loading again\<close>

text \<open>
  Claim C2. Saving a collection and loading it again returns the collection. Flat file:
  when no file operation fails and the JSON codec reads back what it wrote for \<open>T\<close>,
  \<open>saveTasksToFile\<close> followed by \<open>loadTasksFromFile\<close> returns \<open>T\<close> itself, in the same
  order. Relational: when no database call fails, the table exists, the ids of \<open>T\<close>
  are distinct (the primary key) and the engine honours \<open>ORDER BY priority\<close>,
  \<open>saveTasksToDB\<close> followed by \<open>loadTasksFromDB\<close> returns a permutation of \<open>T\<close> in
  ascending order of priority; the order of tasks of equal priority is the engine's.
\<close>

theorem replaceAll_then_load:
  "(fs_faults fs = no_faults \<and> MarshalIndent R T = Some doc \<and> Unmarshal R doc = Some T \<longrightarrow>
      fst (saveTasksToFile R T fs) = None \<and>
      fst (loadTasksFromFile R (snd (saveTasksToFile R T fs))) = Inr T) \<and>
   (db_faults db = no_faults \<and> tasks_table db \<noteq> None \<and> distinct (map ID T) \<and>
    order_by_honoured db T \<longrightarrow>
      fst (saveTasksToDB T db) = None \<and>
      (\<exists>ts. fst (loadTasksFromDB (snd (saveTasksToDB T db))) = Inr ts \<and>
            mset ts = mset T \<and> sorted (map Priority ts)))"
proof (intro conjI impI)
  assume a: "fs_faults fs = no_faults \<and> MarshalIndent R T = Some doc \<and> Unmarshal R doc = Some T"
  then have s: "saveTasksToFile R T fs =
      (None, fs\<lparr>gantt_json := Some doc, fs_trace := fs_trace fs @ [WriteFile doc]\<rparr>)"
    by (simp add: saveTasksToFile_ok)
  show "fst (saveTasksToFile R T fs) = None" by (simp add: s)
  show "fst (loadTasksFromFile R (snd (saveTasksToFile R T fs))) = Inr T"
    using a by (simp add: s loadTasksFromFile_existing [where doc = doc])
next
  assume a: "db_faults db = no_faults \<and> tasks_table db \<noteq> None \<and> distinct (map ID T) \<and>
    order_by_honoured db T"
  then have s: "saveTasksToDB T db =
    (None, db\<lparr>tasks_table := Some T,
               db_trace := db_trace db @ [Begin, ExecDelete, Prepare] @ map StmtExec T @
                 [Commit, StmtClose]\<rparr>)"
    by (simp add: saveTasksToDB_ok)
  show "fst (saveTasksToDB T db) = None" by (simp add: s)
  have "fst (loadTasksFromDB (snd (saveTasksToDB T db))) = Inr (order_by_priority db T)"
    using a by (simp add: s loadTasksFromDB_ok)
  moreover have "mset (order_by_priority db T) = mset T"
    and "sorted (map Priority (order_by_priority db T))"
    using a by (simp_all add: order_by_honoured_def)
  ultimately show "\<exists>ts. fst (loadTasksFromDB (snd (saveTasksToDB T db))) = Inr ts \<and>
      mset ts = mset T \<and> sorted (map Priority ts)"
    by blast
qed

lemma sample_marshal_test:
  "MarshalIndent sample_runtime getTestTasks = Some ''doc-A-B''"
  by (simp add: sample_runtime_def sample_docs_def getTestTasks_def taskA_def taskB_def)

lemma sample_unmarshal_test:
  "Unmarshal sample_runtime ''doc-A-B'' = Some getTestTasks"
  by (simp add: sample_runtime_def sample_docs_def getTestTasks_def)

lemma rowid_order_test: "rowid_order getTestTasks = [taskB, taskA]"
  by (simp add: rowid_order_def getTestTasks_def taskA_def taskB_def)

lemma rowid_order_ties:
  "rowid_order [taskC, taskB, taskA] = [taskB, taskC, taskA]"
  "rowid_order [taskC, taskB] = [taskB, taskC]"
  by (simp_all add: rowid_order_def taskA_def taskB_def taskC_def)

lemma test_task_ids: "ID taskA = 101" "ID taskB = 102" "ID taskC = 103"
  by (simp_all add: taskA_def taskB_def taskC_def)

lemma distinct_test: "distinct (map ID getTestTasks)"
  by (simp add: getTestTasks_def taskA_def taskB_def)

lemma test_db_simps:
  "db_faults test_db = no_faults" "tasks_table test_db = Some [taskA, taskB]"
  "order_by_priority test_db = rowid_order" "db_trace test_db = []"
  by (simp_all add: test_db_def)

theorem replaceAll_then_load_witness:
  "fst (loadTasksFromFile sample_runtime (snd (saveTasksToFile sample_runtime getTestTasks fresh_disk)))
     = Inr [taskA, taskB] \<and>
   fst (saveTasksToDB [taskC, taskB, taskA] test_db) = None \<and>
   fst (loadTasksFromDB (snd (saveTasksToDB [taskC, taskB, taskA] test_db))) =
     Inr [taskB, taskC, taskA]"
proof -
  have h: "order_by_honoured test_db [taskC, taskB, taskA]"
    by (rule rowid_order_honoured [OF test_db_simps(3)])
  have 1: "fst (loadTasksFromFile sample_runtime
      (snd (saveTasksToFile sample_runtime getTestTasks fresh_disk))) = Inr [taskA, taskB]"
    using replaceAll_then_load [of fresh_disk sample_runtime getTestTasks "''doc-A-B''"]
    by (simp add: sample_marshal_test sample_unmarshal_test fresh_disk_def)
      (simp add: getTestTasks_def)
  have 2: "fst (saveTasksToDB [taskC, taskB, taskA] test_db) = None"
    using replaceAll_then_load [where db = test_db and T = "[taskC, taskB, taskA]"] h
    by (simp add: test_db_simps test_task_ids)
  have s: "saveTasksToDB [taskC, taskB, taskA] test_db =
    (None, test_db\<lparr>tasks_table := Some [taskC, taskB, taskA],
               db_trace := db_trace test_db @ [Begin, ExecDelete, Prepare] @
                 map StmtExec [taskC, taskB, taskA] @ [Commit, StmtClose]\<rparr>)"
    by (rule saveTasksToDB_ok) (simp_all add: test_db_simps test_task_ids)
  have 3: "fst (loadTasksFromDB (snd (saveTasksToDB [taskC, taskB, taskA] test_db))) =
     Inr [taskB, taskC, taskA]"
    by (simp add: s loadTasksFromDB_ok test_db_simps rowid_order_ties)
  from 1 2 3 show ?thesis by blast
qed

section \<open>The order of a load\<close>

text \<open>
  Claim C6. \<open>loadTasksFromDB\<close> asks the engine for the rows \<open>ORDER BY priority\<close> and
  returns them as the engine delivers them. With an engine that honours the clause it
  returns the stored tasks in ascending order of priority: all of them when no call
  fails, and a sorted list whatever fails. A table that holds exactly the test tasks 101
  (priority 5) and 102 (priority 1) is returned as 102 before 101 by every such engine.
  \<open>loadTasksFromFile\<close> returns the list the stored document decodes to, in the
  document's order; for the document of the two test tasks that is 101 before 102.
\<close>

theorem load_order:
  "(db_faults db = no_faults \<and> tasks_table db = Some stored \<longrightarrow>
      fst (loadTasksFromDB db) = Inr (order_by_priority db stored)) \<and>
   (db_faults db = no_faults \<and> tasks_table db = Some stored \<and> order_by_honoured db stored \<longrightarrow>
      (\<exists>ts. fst (loadTasksFromDB db) = Inr ts \<and> mset ts = mset stored \<and>
            sorted (map Priority ts))) \<and>
   (\<forall>ts db'. tasks_table db = Some stored \<and> order_by_honoured db stored \<and>
       loadTasksFromDB db = (Inr ts, db') \<longrightarrow> sorted (map Priority ts)) \<and>
   (db_faults db = no_faults \<and> tasks_table db = Some stored \<and>
    mset stored = mset [taskA, taskB] \<and> order_by_honoured db stored \<longrightarrow>
      fst (loadTasksFromDB db) = Inr [taskB, taskA]) \<and>
   map ID [taskB, taskA] = [102, 101] \<and>
   (fs_faults fs = no_faults \<and> gantt_json fs = Some doc \<and> Unmarshal R doc = Some ts' \<longrightarrow>
      fst (loadTasksFromFile R fs) = Inr ts') \<and>
   fst (loadTasksFromFile sample_runtime test_disk) = Inr [taskA, taskB]"
proof (intro conjI impI allI)
  assume "db_faults db = no_faults \<and> tasks_table db = Some stored"
  then show "fst (loadTasksFromDB db) = Inr (order_by_priority db stored)"
    by (simp add: loadTasksFromDB_ok)
next
  assume a: "db_faults db = no_faults \<and> tasks_table db = Some stored \<and>
    order_by_honoured db stored"
  then have "fst (loadTasksFromDB db) = Inr (order_by_priority db stored)"
    by (simp add: loadTasksFromDB_ok)
  moreover have "mset (order_by_priority db stored) = mset stored"
    and "sorted (map Priority (order_by_priority db stored))"
    using a by (simp_all add: order_by_honoured_def)
  ultimately show "\<exists>ts. fst (loadTasksFromDB db) = Inr ts \<and> mset ts = mset stored \<and>
      sorted (map Priority ts)"
    by blast
next
  fix ts db'
  assume "tasks_table db = Some stored \<and> order_by_honoured db stored \<and>
    loadTasksFromDB db = (Inr ts, db')"
  then show "sorted (map Priority ts)" by (blast intro: loadTasksFromDB_sorted)
next
  assume a: "db_faults db = no_faults \<and> tasks_table db = Some stored \<and>
    mset stored = mset [taskA, taskB] \<and> order_by_honoured db stored"
  then have l: "fst (loadTasksFromDB db) = Inr (order_by_priority db stored)"
    by (simp add: loadTasksFromDB_ok)
  have d: "distinct (map Priority [taskA, taskB])" by (simp add: taskA_def taskB_def)
  have m: "mset (order_by_priority db stored) = mset [taskA, taskB]"
    and s: "sorted (map Priority (order_by_priority db stored))"
    using a by (simp_all add: order_by_honoured_def)
  have "order_by_priority db stored = sort_key Priority [taskA, taskB]"
    by (rule sorted_by_priority_unique [OF d m s])
  also have "\<dots> = [taskB, taskA]" by (simp add: taskA_def taskB_def)
  finally show "fst (loadTasksFromDB db) = Inr [taskB, taskA]" using l by simp
next
  show "map ID [taskB, taskA] = [102, 101]" by (simp add: taskA_def taskB_def)
next
  assume "fs_faults fs = no_faults \<and> gantt_json fs = Some doc \<and> Unmarshal R doc = Some ts'"
  then show "fst (loadTasksFromFile R fs) = Inr ts'"
    by (simp add: loadTasksFromFile_existing [where doc = doc])
next
  show "fst (loadTasksFromFile sample_runtime test_disk) = Inr [taskA, taskB]"
    using loadTasksFromFile_existing [of test_disk "''doc-A-B''" sample_runtime]
    by (simp add: test_disk_def sample_unmarshal_test getTestTasks_def)
qed

theorem load_order_witness:
  "fst (loadTasksFromDB (test_db\<lparr>tasks_table := Some [taskC, taskB]\<rparr>)) = Inr [taskB, taskC] \<and>
   map ID [taskB, taskC] = [102, 103] \<and>
   sorted (map Priority [taskB, taskC]) \<and>
   fst (loadTasksFromDB test_db) = Inr [taskB, taskA] \<and>
   fst (loadTasksFromFile sample_runtime (test_disk\<lparr>gantt_json := Some ''doc-B''\<rparr>)) = Inr [taskB]"
proof -
  let ?db = "test_db\<lparr>tasks_table := Some [taskC, taskB]\<rparr>"
  let ?fs = "test_disk\<lparr>gantt_json := Some ''doc-B''\<rparr>"
  note t = load_order [of ?db "[taskC, taskB]" ?fs "''doc-B''" sample_runtime "[taskB]"]
  note t' = load_order [of test_db "[taskA, taskB]"]
  have f: "db_faults ?db = no_faults" "fs_faults ?fs = no_faults"
    "order_by_priority ?db = rowid_order"
    by (simp_all add: test_db_def test_disk_def)
  have h: "order_by_honoured ?db [taskC, taskB]" "order_by_honoured test_db [taskA, taskB]"
    by (simp_all add: rowid_order_honoured f test_db_simps)
  have u: "Unmarshal sample_runtime ''doc-B'' = Some [taskB]"
    by (simp add: sample_runtime_def sample_docs_def)
  from t f u have 1: "fst (loadTasksFromDB ?db) = Inr [taskB, taskC]"
    and 5: "fst (loadTasksFromFile sample_runtime ?fs) = Inr [taskB]"
    by (simp_all add: rowid_order_ties)
  obtain db' where "loadTasksFromDB ?db = (Inr [taskB, taskC], db')"
    using 1 by (cases "loadTasksFromDB ?db") simp
  with t h(1) have 3: "sorted (map Priority [taskB, taskC])" by auto
  have 2: "map ID [taskB, taskC] = [102, 103]" by (simp add: taskB_def taskC_def)
  from t' h(2) have 4: "fst (loadTasksFromDB test_db) = Inr [taskB, taskA]"
    by (simp add: test_db_simps rowid_order_test [unfolded getTestTasks_def])
  from 1 2 3 4 5 show ?thesis by blast
qed

section \<open>Saving twice\<close>

text \<open>
  Claim C7. Saving the same collection twice in a row leaves the same stored collection,
  and the same result of a load, as saving it once, for every collection, in both
  variants, when no file operation or database call fails. In the relational variant,
  once the first save has succeeded the table holds the collection after the second
  save even when calls of the second save fail.
\<close>

theorem replaceAll_idempotent:
  "(fs_faults fs = no_faults \<longrightarrow>
      gantt_json (snd (saveTasksToFile R T (snd (saveTasksToFile R T fs)))) =
        gantt_json (snd (saveTasksToFile R T fs)) \<and>
      fst (loadTasksFromFile R (snd (saveTasksToFile R T (snd (saveTasksToFile R T fs))))) =
        fst (loadTasksFromFile R (snd (saveTasksToFile R T fs)))) \<and>
   (db_faults db = no_faults \<longrightarrow>
      tasks_table (snd (saveTasksToDB T (snd (saveTasksToDB T db)))) =
        tasks_table (snd (saveTasksToDB T db)) \<and>
      fst (loadTasksFromDB (snd (saveTasksToDB T (snd (saveTasksToDB T db))))) =
        fst (loadTasksFromDB (snd (saveTasksToDB T db)))) \<and>
   (fst (saveTasksToDB T db) = None \<longrightarrow>
      tasks_table (snd (saveTasksToDB T (snd (saveTasksToDB T db)))) = Some T)"
proof (intro conjI impI)
  assume nf: "fs_faults fs = no_faults"
  let ?fs1 = "snd (saveTasksToFile R T fs)"
  let ?fs2 = "snd (saveTasksToFile R T ?fs1)"
  have f1: "fs_faults ?fs1 = no_faults"
    using nf by (cases "MarshalIndent R T")
      (simp_all add: saveTasksToFile_unserializable saveTasksToFile_ok)
  have f2: "fs_faults ?fs2 = no_faults"
    using f1 by (cases "MarshalIndent R T")
      (simp_all add: saveTasksToFile_unserializable saveTasksToFile_ok)
  show g: "gantt_json ?fs2 = gantt_json ?fs1"
    using nf f1 by (cases "MarshalIndent R T")
      (simp_all add: saveTasksToFile_unserializable saveTasksToFile_ok)
  show "fst (loadTasksFromFile R ?fs2) = fst (loadTasksFromFile R ?fs1)"
    by (rule loadTasksFromFile_determined [OF f2 f1 g])
next
  assume nf: "db_faults db = no_faults"
  let ?db1 = "snd (saveTasksToDB T db)"
  let ?db2 = "snd (saveTasksToDB T ?db1)"
  have f1: "db_faults ?db1 = no_faults" using nf by (simp add: saveTasksToDB_faults)
  have f2: "db_faults ?db2 = no_faults" using f1 by (simp add: saveTasksToDB_faults)
  show g: "tasks_table ?db2 = tasks_table ?db1"
  proof (cases "fst (saveTasksToDB T ?db1)")
    case None
    then have 2: "saveTasksToDB T ?db1 = (None, ?db2)" by (simp add: prod_eq_iff)
    from saveTasksToDB_success(4,5) [OF 2] have "tasks_table ?db1 \<noteq> None" "distinct (map ID T)" .
    show ?thesis
    proof (cases "fst (saveTasksToDB T db)")
      case None
      then have 1: "saveTasksToDB T db = (None, ?db1)" by (simp add: prod_eq_iff)
      from saveTasksToDB_success(1) [OF 1] saveTasksToDB_success(1) [OF 2] show ?thesis by simp
    next
      case (Some e)
      then have 1: "saveTasksToDB T db = (Some e, ?db1)" by (simp add: prod_eq_iff)
      from saveTasksToDB_failure_keeps_table [OF 1] \<open>tasks_table ?db1 \<noteq> None\<close>
      have "tasks_table db \<noteq> None" by simp
      with nf \<open>distinct (map ID T)\<close> have "fst (saveTasksToDB T db) = None"
        by (simp add: saveTasksToDB_ok)
      with Some show ?thesis by simp
    qed
  next
    case (Some e)
    then have 2: "saveTasksToDB T ?db1 = (Some e, ?db2)" by (simp add: prod_eq_iff)
    from saveTasksToDB_failure_keeps_table [OF 2] show ?thesis .
  qed
  show "fst (loadTasksFromDB ?db2) = fst (loadTasksFromDB ?db1)"
    by (simp add: loadTasksFromDB_ok [OF f2] loadTasksFromDB_ok [OF f1] g saveTasksToDB_engine
        cong: option.case_cong)
next
  assume a: "fst (saveTasksToDB T db) = None"
  let ?db1 = "snd (saveTasksToDB T db)"
  let ?db2 = "snd (saveTasksToDB T ?db1)"
  from a have 1: "saveTasksToDB T db = (None, ?db1)" by (simp add: prod_eq_iff)
  show "tasks_table ?db2 = Some T"
  proof (cases "fst (saveTasksToDB T ?db1)")
    case None
    then have 2: "saveTasksToDB T ?db1 = (None, ?db2)" by (simp add: prod_eq_iff)
    from saveTasksToDB_success(1) [OF 2] show ?thesis .
  next
    case (Some e)
    then have 2: "saveTasksToDB T ?db1 = (Some e, ?db2)" by (simp add: prod_eq_iff)
    from saveTasksToDB_failure_keeps_table [OF 2] saveTasksToDB_success(1) [OF 1]
    show ?thesis by simp
  qed
qed

theorem replaceAll_idempotent_witness:
  "fst (loadTasksFromFile sample_runtime
     (snd (saveTasksToFile sample_runtime getTestTasks
        (snd (saveTasksToFile sample_runtime getTestTasks fresh_disk))))) = Inr getTestTasks \<and>
   fst (loadTasksFromDB (snd (saveTasksToDB getTestTasks (snd (saveTasksToDB getTestTasks test_db)))))
     = Inr [taskB, taskA] \<and>
   tasks_table (snd (saveTasksToDB getTestTasks (snd (saveTasksToDB getTestTasks test_db))))
     = Some getTestTasks"
proof -
  note t = replaceAll_idempotent [of fresh_disk sample_runtime getTestTasks test_db]
  have f: "fs_faults fresh_disk = no_faults" "db_faults test_db = no_faults"
    "tasks_table test_db \<noteq> None"
    by (simp_all add: fresh_disk_def test_db_def)
  have s1: "saveTasksToFile sample_runtime getTestTasks fresh_disk =
      (None, fresh_disk\<lparr>gantt_json := Some ''doc-A-B'',
                         fs_trace := fs_trace fresh_disk @ [WriteFile ''doc-A-B'']\<rparr>)"
    by (rule saveTasksToFile_ok [OF f(1) sample_marshal_test])
  have l1: "fst (loadTasksFromFile sample_runtime
      (snd (saveTasksToFile sample_runtime getTestTasks fresh_disk))) = Inr getTestTasks"
    using f(1) by (simp add: s1 loadTasksFromFile_existing [where doc = "''doc-A-B''"]
        sample_unmarshal_test)
  have d1: "saveTasksToDB getTestTasks test_db =
      (None, test_db\<lparr>tasks_table := Some getTestTasks,
                      db_trace := db_trace test_db @ [Begin, ExecDelete, Prepare] @
                        map StmtExec getTestTasks @ [Commit, StmtClose]\<rparr>)"
    by (rule saveTasksToDB_ok [OF f(2) f(3) distinct_test])
  have m1: "fst (loadTasksFromDB (snd (saveTasksToDB getTestTasks test_db))) = Inr [taskB, taskA]"
    using f(2) by (simp add: d1 loadTasksFromDB_ok test_db_simps rowid_order_test)
  have n1: "fst (saveTasksToDB getTestTasks test_db) = None" by (simp add: d1)
  from t f(1) l1 have 1: "fst (loadTasksFromFile sample_runtime
     (snd (saveTasksToFile sample_runtime getTestTasks
        (snd (saveTasksToFile sample_runtime getTestTasks fresh_disk))))) = Inr getTestTasks"
    by metis
  from t f(2) m1 have 2: "fst (loadTasksFromDB
      (snd (saveTasksToDB getTestTasks (snd (saveTasksToDB getTestTasks test_db))))) =
      Inr [taskB, taskA]"
    by metis
  from t n1 have 3: "tasks_table
      (snd (saveTasksToDB getTestTasks (snd (saveTasksToDB getTestTasks test_db)))) =
      Some getTestTasks"
    by metis
  from 1 2 3 show ?thesis by blast
qed

lemma getInitialTasks_length: "length (getInitialTasks y) = 5"
  by (simp add: getInitialTasks_def Let_def)

lemma getInitialTasks_ids: "map ID (getInitialTasks y) = [1, 2, 3, 4, 5]"
  by (simp add: getInitialTasks_def Let_def)

lemma getInitialTasks_priorities: "distinct (map Priority (getInitialTasks y))"
  by (simp add: getInitialTasks_def Let_def)

lemma getInitialTasks_sorted:
  "map ID (sort_key Priority (getInitialTasks y)) = [3, 2, 4, 1, 5]"
  by (simp add: getInitialTasks_def Let_def)

lemma initDB_ok:
  assumes nf: "db_faults db = no_faults"
    and e: "tasks_table db = None \<or> tasks_table db = Some []"
  shows "initDB R db =
    (None, db\<lparr>tasks_table := Some (getInitialTasks (NowYear R)),
               db_trace := db_trace db @ [Open, Ping, ExecCreateTable, QueryRowCount] @
                 [Begin, ExecDelete, Prepare] @ map StmtExec (getInitialTasks (NowYear R)) @
                 [Commit, StmtClose]\<rparr>)"
proof -
  let ?db4 = "db\<lparr>tasks_table := Some [],
                  db_trace := db_trace db @ [Open, Ping, ExecCreateTable, QueryRowCount]\<rparr>"
  have d: "distinct (map ID (getInitialTasks (NowYear R)))"
    by (simp add: getInitialTasks_ids)
  have s: "saveTasksToDB (getInitialTasks (NowYear R)) ?db4 =
    (None, ?db4\<lparr>tasks_table := Some (getInitialTasks (NowYear R)),
               db_trace := db_trace ?db4 @ [Begin, ExecDelete, Prepare] @
                 map StmtExec (getInitialTasks (NowYear R)) @ [Commit, StmtClose]\<rparr>)"
    using nf by (intro saveTasksToDB_ok d) simp_all
  from e show ?thesis
    using nf by (auto simp: initDB_def driver_ok s)
qed

section \<open>First run\<close>

text \<open>
  Claim C4. On a fresh store a load returns the five default tasks of
  \<open>getInitialTasks\<close>, ids 1 to 5. Flat file: when \<open>gantt.json\<close> does not exist and
  neither the read, the serialisation nor the write fails, \<open>loadTasksFromFile\<close> writes
  the document of the default tasks to the file and returns them. Relational: when the
  table is missing or empty and no call fails, \<open>initDB\<close> fills it through the calls of
  \<open>saveTasksToDB\<close> with the default tasks, and \<open>loadTasksFromDB\<close> then returns these
  five tasks, sorted by priority, from every engine that honours \<open>ORDER BY priority\<close>
  (their priorities are distinct, so there is one such order).
\<close>

theorem first_run_seeding:
  "(fs_faults fs = no_faults \<and> gantt_json fs = None \<and>
    MarshalIndent R (getInitialTasks (NowYear R)) = Some doc \<longrightarrow>
      loadTasksFromFile R fs =
        (Inr (getInitialTasks (NowYear R)),
         fs\<lparr>gantt_json := Some doc, fs_trace := fs_trace fs @ [ReadFile, WriteFile doc]\<rparr>)) \<and>
   (db_faults db = no_faults \<and> (tasks_table db = None \<or> tasks_table db = Some []) \<longrightarrow>
      fst (initDB R db) = None \<and>
      tasks_table (snd (initDB R db)) = Some (getInitialTasks (NowYear R)) \<and>
      db_trace (snd (initDB R db)) =
        db_trace db @ [Open, Ping, ExecCreateTable, QueryRowCount] @
          [Begin, ExecDelete, Prepare] @ map StmtExec (getInitialTasks (NowYear R)) @
          [Commit, StmtClose] \<and>
      (order_by_honoured db (getInitialTasks (NowYear R)) \<longrightarrow>
         fst (loadTasksFromDB (snd (initDB R db))) =
           Inr (sort_key Priority (getInitialTasks (NowYear R)))) \<and>
      mset (sort_key Priority (getInitialTasks (NowYear R))) = mset (getInitialTasks (NowYear R))) \<and>
   length (getInitialTasks (NowYear R)) = 5 \<and>
   map ID (getInitialTasks (NowYear R)) = [1, 2, 3, 4, 5]"
proof (intro conjI impI)
  assume "fs_faults fs = no_faults \<and> gantt_json fs = None \<and>
    MarshalIndent R (getInitialTasks (NowYear R)) = Some doc"
  then show "loadTasksFromFile R fs =
        (Inr (getInitialTasks (NowYear R)),
         fs\<lparr>gantt_json := Some doc, fs_trace := fs_trace fs @ [ReadFile, WriteFile doc]\<rparr>)"
    by (simp add: loadTasksFromFile_absent)
next
  assume a: "db_faults db = no_faults \<and> (tasks_table db = None \<or> tasks_table db = Some [])"
  then have i: "initDB R db =
    (None, db\<lparr>tasks_table := Some (getInitialTasks (NowYear R)),
               db_trace := db_trace db @ [Open, Ping, ExecCreateTable, QueryRowCount] @
                 [Begin, ExecDelete, Prepare] @ map StmtExec (getInitialTasks (NowYear R)) @
                 [Commit, StmtClose]\<rparr>)"
    by (intro initDB_ok) simp_all
  show "fst (initDB R db) = None" by (simp add: i)
  show "tasks_table (snd (initDB R db)) = Some (getInitialTasks (NowYear R))" by (simp add: i)
  show "db_trace (snd (initDB R db)) =
        db_trace db @ [Open, Ping, ExecCreateTable, QueryRowCount] @
          [Begin, ExecDelete, Prepare] @ map StmtExec (getInitialTasks (NowYear R)) @
          [Commit, StmtClose]"
    by (simp add: i)
  show "mset (sort_key Priority (getInitialTasks (NowYear R))) = mset (getInitialTasks (NowYear R))"
    by simp
  assume h: "order_by_honoured db (getInitialTasks (NowYear R))"
  have "order_by_priority db (getInitialTasks (NowYear R)) =
      sort_key Priority (getInitialTasks (NowYear R))"
    using h by (intro sorted_by_priority_unique getInitialTasks_priorities)
      (simp_all add: order_by_honoured_def)
  then show "fst (loadTasksFromDB (snd (initDB R db))) =
        Inr (sort_key Priority (getInitialTasks (NowYear R)))"
    using a by (simp add: i loadTasksFromDB_ok)
next
  show "length (getInitialTasks (NowYear R)) = 5" by (rule getInitialTasks_length)
  show "map ID (getInitialTasks (NowYear R)) = [1, 2, 3, 4, 5]" by (rule getInitialTasks_ids)
qed

lemma sample_marshal_defaults:
  "MarshalIndent sample_runtime (getInitialTasks 2026) = Some ''doc-defaults''"
proof -
  have n: "getInitialTasks 2026 \<noteq> []" "getInitialTasks 2026 \<noteq> [taskA, taskB]"
    "getInitialTasks 2026 \<noteq> [taskB]" "getInitialTasks 2026 \<noteq> [taskA, taskB, taskA2]"
    using getInitialTasks_length [of 2026] by auto
  show ?thesis
    by (simp add: sample_runtime_def sample_docs_def n)
qed

theorem first_run_seeding_witness:
  "loadTasksFromFile sample_runtime fresh_disk =
     (Inr (getInitialTasks 2026),
      \<lparr>gantt_json = Some ''doc-defaults'', fs_trace = [ReadFile, WriteFile ''doc-defaults''],
       fs_faults = no_faults\<rparr>) \<and>
   map Start (getInitialTasks 2026) =
     [''2027-01-01'', ''2027-01-08'', ''2027-01-13'', ''2027-01-13'', ''2027-01-25''] \<and>
   fst (initDB sample_runtime fresh_db) = None \<and>
   tasks_table (snd (initDB sample_runtime fresh_db)) = Some (getInitialTasks 2026) \<and>
   fst (loadTasksFromDB (snd (initDB sample_runtime fresh_db))) =
     Inr (sort_key Priority (getInitialTasks 2026)) \<and>
   map ID (sort_key Priority (getInitialTasks 2026)) = [3, 2, 4, 1, 5]"
proof -
  have y: "NowYear sample_runtime = 2026" by (simp add: sample_runtime_def)
  have f: "db_faults fresh_db = no_faults" "tasks_table fresh_db = None"
    "order_by_priority fresh_db = rowid_order"
    by (simp_all add: fresh_db_def)
  have h: "order_by_honoured fresh_db (getInitialTasks 2026)"
    by (rule rowid_order_honoured [OF f(3)])
  note t = first_run_seeding [of fresh_disk sample_runtime "''doc-defaults''" fresh_db]
  have s: "map Start (getInitialTasks 2026) =
     [''2027-01-01'', ''2027-01-08'', ''2027-01-13'', ''2027-01-13'', ''2027-01-25'']"
  proof -
    have "map Start (getInitialTasks 2026) =
      [formatDate 2027 1 1, formatDate 2027 1 8, formatDate 2027 1 13, formatDate 2027 1 13,
       formatDate 2027 1 25]"
      by (simp add: getInitialTasks_def Let_def)
    then show ?thesis
      by (simp add: formatDate_def pad_def digit_char_simps)
  qed
  from t s h show ?thesis
    by (simp add: y f sample_marshal_defaults fresh_disk_def getInitialTasks_sorted)
qed

section \<open>A malformed POST body\<close>

text \<open>
  Claim C5. A POST whose body \<open>json.Unmarshal\<close> rejects is answered with status 400
  by the handler of either variant, and the store is left exactly as it was: no file
  operation and no database call is made. The same holds when the body cannot be read.
\<close>

theorem malformed_post_rejected:
  "(Method r = ''POST'' \<and> Body r = Some body \<and> Unmarshal R body = None \<longrightarrow>
      apiTasksHandler_file R r fs = (\<lparr>StatusCode = 400, Reply = ParseBodyFailed\<rparr>, fs) \<and>
      apiTasksHandler_db R r db = (\<lparr>StatusCode = 400, Reply = ParseBodyFailed\<rparr>, db)) \<and>
   (Method r = ''POST'' \<and> Body r = None \<longrightarrow>
      apiTasksHandler_file R r fs = (\<lparr>StatusCode = 400, Reply = ReadBodyFailed\<rparr>, fs) \<and>
      apiTasksHandler_db R r db = (\<lparr>StatusCode = 400, Reply = ReadBodyFailed\<rparr>, db))"
  by (simp add: apiTasksHandler_file_def apiTasksHandler_db_def)

theorem malformed_post_rejected_witness:
  "apiTasksHandler_file sample_runtime
     \<lparr>Method = ''POST'', Body = Some ''[{id: 1'', QueryID = ''''\<rparr> test_disk =
     (\<lparr>StatusCode = 400, Reply = ParseBodyFailed\<rparr>, test_disk) \<and>
   apiTasksHandler_db sample_runtime
     \<lparr>Method = ''POST'', Body = Some ''[{id: 1'', QueryID = ''''\<rparr> test_db =
     (\<lparr>StatusCode = 400, Reply = ParseBodyFailed\<rparr>, test_db)"
proof -
  have u: "Unmarshal sample_runtime ''[{id: 1'' = None"
    by (simp add: sample_runtime_def sample_docs_def)
  from malformed_post_rejected [of "\<lparr>Method = ''POST'', Body = Some ''[{id: 1'', QueryID = ''''\<rparr>"
      "''[{id: 1''" sample_runtime test_disk test_db] u
  show ?thesis by simp
qed

section \<open>Deleting a task by id\<close>

subsection \<open>The DELETE branch after its load\<close>

lemma deleteLoop_start:
  "deleteLoop i ts (False, []) = (i \<in> set (map ID ts), filter (\<lambda>t. ID t \<noteq> i) ts)"
  by (simp add: deleteLoop_eq)

lemma Atoi_nonempty: "Atoi q = Some i \<Longrightarrow> q \<noteq> []"
  by (auto simp: Atoi_def)

lemma saveTasksToFile_faults: "fs_faults (snd (saveTasksToFile R tasks fs)) = fs_faults fs"
  by (simp add: saveTasksToFile_def os_WriteFile_def Let_def split: option.splits)

lemma loadTasksFromFile_faults: "fs_faults (snd (loadTasksFromFile R fs)) = fs_faults fs"
proof -
  have "fs_faults (snd (saveTasksToFile R tasks (fs\<lparr>fs_trace := fs_trace fs @ [ReadFile]\<rparr>))) =
      fs_faults fs" for tasks
    by (simp add: saveTasksToFile_faults)
  then show ?thesis
    by (simp add: loadTasksFromFile_def os_ReadFile_def Let_def case_prod_beta
        split: option.splits)
qed

lemma loadTasksFromFile_only_reads:
  "gantt_json fs \<noteq> None \<Longrightarrow>
     snd (loadTasksFromFile R fs) = fs\<lparr>fs_trace := fs_trace fs @ [ReadFile]\<rparr>"
  by (auto simp: loadTasksFromFile_def os_ReadFile_def Let_def split: option.splits)

lemma delete_present:
  assumes "Method r = ''DELETE''" and "Atoi (QueryID r) = Some i"
    and "loadTasksFromFile R fs = (Inr cur, fs1)" and "i \<in> set (map ID cur)"
    and "MarshalIndent R (filter (\<lambda>t. ID t \<noteq> i) cur) = Some doc'"
    and "\<not> fs_faults fs1 (length (fs_trace fs1))"
  shows "apiTasksHandler_file R r fs =
    (\<lparr>StatusCode = 200, Reply = DeletedMessage i\<rparr>,
     fs1\<lparr>gantt_json := Some doc', fs_trace := fs_trace fs1 @ [WriteFile doc']\<rparr>)"
proof -
  have s: "saveTasksToFile R (filter (\<lambda>t. ID t \<noteq> i) cur) fs1 =
      (None, fs1\<lparr>gantt_json := Some doc', fs_trace := fs_trace fs1 @ [WriteFile doc']\<rparr>)"
    using assms(5,6) by (simp add: saveTasksToFile_def os_WriteFile_def Let_def)
  from assms(1,2,4) Atoi_nonempty [OF assms(2)] show ?thesis
    by (simp add: apiTasksHandler_file_def assms(3) deleteLoop_start s)
qed

lemma delete_absent:
  assumes "Method r = ''DELETE''" and "Atoi (QueryID r) = Some i"
    and "loadTasksFromFile R fs = (Inr cur, fs1)" and "i \<notin> set (map ID cur)"
  shows "apiTasksHandler_file R r fs = (\<lparr>StatusCode = 404, Reply = TaskNotFound i\<rparr>, fs1)"
  using assms(1,2,4) Atoi_nonempty [OF assms(2)]
  by (simp add: apiTasksHandler_file_def assms(3) deleteLoop_start)

text \<open>
  Claim C3, as the code has it. A DELETE request with a well-formed id \<open>i\<close>, whose load
  returns the list \<open>cur\<close>. If a task of \<open>cur\<close> has id \<open>i\<close>, no file operation fails
  and the codec writes and reads back the remaining list, the response is 200 and a
  following load returns \<open>cur\<close> without the tasks of id \<open>i\<close>, the others in their
  order and unchanged. If no task of \<open>cur\<close> has id \<open>i\<close>, the response is 404 and the
  handler writes nothing of its own: it leaves the store as its load left it. When the
  file exists that load is a single read, so nothing is written and the file is as
  before.
\<close>

theorem delete_by_id:
  assumes "Method r = ''DELETE''" and "Atoi (QueryID r) = Some i"
    and "loadTasksFromFile R fs = (Inr cur, fs1)"
  shows "(i \<in> set (map ID cur) \<and> fs_faults fs = no_faults \<and>
          MarshalIndent R (filter (\<lambda>t. ID t \<noteq> i) cur) = Some doc' \<and>
          Unmarshal R doc' = Some (filter (\<lambda>t. ID t \<noteq> i) cur) \<longrightarrow>
            StatusCode (fst (apiTasksHandler_file R r fs)) = 200 \<and>
            fst (loadTasksFromFile R (snd (apiTasksHandler_file R r fs))) =
              Inr (filter (\<lambda>t. ID t \<noteq> i) cur) \<and>
            i \<notin> set (map ID (filter (\<lambda>t. ID t \<noteq> i) cur))) \<and>
         (i \<notin> set (map ID cur) \<longrightarrow>
            apiTasksHandler_file R r fs = (\<lparr>StatusCode = 404, Reply = TaskNotFound i\<rparr>, fs1) \<and>
            (gantt_json fs \<noteq> None \<longrightarrow>
               gantt_json fs1 = gantt_json fs \<and> fs_trace fs1 = fs_trace fs @ [ReadFile]))"
proof (intro conjI impI)
  assume a: "i \<in> set (map ID cur) \<and> fs_faults fs = no_faults \<and>
          MarshalIndent R (filter (\<lambda>t. ID t \<noteq> i) cur) = Some doc' \<and>
          Unmarshal R doc' = Some (filter (\<lambda>t. ID t \<noteq> i) cur)"
  from assms(3) have "fs1 = snd (loadTasksFromFile R fs)" by simp
  with a have nf: "fs_faults fs1 = no_faults" by (simp add: loadTasksFromFile_faults)
  then have w: "\<not> fs_faults fs1 (length (fs_trace fs1))" by (simp add: no_faults_def)
  from a have h: "apiTasksHandler_file R r fs =
    (\<lparr>StatusCode = 200, Reply = DeletedMessage i\<rparr>,
     fs1\<lparr>gantt_json := Some doc', fs_trace := fs_trace fs1 @ [WriteFile doc']\<rparr>)"
    using delete_present [OF assms(1,2,3) _ _ w, of doc'] by simp
  show "StatusCode (fst (apiTasksHandler_file R r fs)) = 200" by (simp add: h)
  show "fst (loadTasksFromFile R (snd (apiTasksHandler_file R r fs))) =
      Inr (filter (\<lambda>t. ID t \<noteq> i) cur)"
    using a nf by (simp add: h loadTasksFromFile_existing [where doc = doc'])
  show "i \<notin> set (map ID (filter (\<lambda>t. ID t \<noteq> i) cur))" by auto
next
  assume a: "i \<notin> set (map ID cur)"
  show "apiTasksHandler_file R r fs = (\<lparr>StatusCode = 404, Reply = TaskNotFound i\<rparr>, fs1)"
    by (rule delete_absent [OF assms a])
  assume e: "gantt_json fs \<noteq> None"
  from loadTasksFromFile_only_reads [OF e, of R] assms(3)
  have "fs1 = fs\<lparr>fs_trace := fs_trace fs @ [ReadFile]\<rparr>" by simp
  then show "gantt_json fs1 = gantt_json fs" and "fs_trace fs1 = fs_trace fs @ [ReadFile]"
    by simp_all
qed

lemma sample_unmarshal_B: "Unmarshal sample_runtime ''doc-B'' = Some [taskB]"
  by (simp add: sample_runtime_def sample_docs_def)

lemma sample_marshal_B: "MarshalIndent sample_runtime [taskB] = Some ''doc-B''"
  by (simp add: sample_runtime_def sample_docs_def taskA_def taskB_def)

lemma sample_unmarshal_dup: "Unmarshal sample_runtime ''doc-A-B-A2'' = Some [taskA, taskB, taskA2]"
  by (simp add: sample_runtime_def sample_docs_def)

lemma test_ids: "ID taskA = 101" "ID taskB = 102" "ID taskA2 = 101"
  by (simp_all add: taskA_def taskB_def taskA2_def)

lemma Atoi_101: "Atoi ''101'' = Some 101"
  by (simp add: Atoi_def digit_def)

lemma Atoi_7: "Atoi ''7'' = Some 7"
  by (simp add: Atoi_def digit_def)

lemma load_test_disk:
  "loadTasksFromFile sample_runtime test_disk = (Inr getTestTasks, test_disk\<lparr>fs_trace := [ReadFile]\<rparr>)"
  using loadTasksFromFile_existing [of test_disk "''doc-A-B''" sample_runtime]
  by (simp add: test_disk_def sample_unmarshal_test)

theorem delete_by_id_witness:
  "StatusCode (fst (apiTasksHandler_file sample_runtime
     \<lparr>Method = ''DELETE'', Body = None, QueryID = ''101''\<rparr> test_disk)) = 200 \<and>
   fst (loadTasksFromFile sample_runtime (snd (apiTasksHandler_file sample_runtime
     \<lparr>Method = ''DELETE'', Body = None, QueryID = ''101''\<rparr> test_disk))) = Inr [taskB] \<and>
   apiTasksHandler_file sample_runtime
     \<lparr>Method = ''DELETE'', Body = None, QueryID = ''7''\<rparr> test_disk =
     (\<lparr>StatusCode = 404, Reply = TaskNotFound 7\<rparr>, test_disk\<lparr>fs_trace := [ReadFile]\<rparr>)"
proof -
  let ?r1 = "\<lparr>Method = ''DELETE'', Body = None, QueryID = ''101''\<rparr>"
  let ?r2 = "\<lparr>Method = ''DELETE'', Body = None, QueryID = ''7''\<rparr>"
  have f: "filter (\<lambda>t. ID t \<noteq> 101) getTestTasks = [taskB]"
    "101 \<in> ID ` set getTestTasks" "7 \<notin> ID ` set getTestTasks"
    by (simp_all add: getTestTasks_def test_ids)
  have d: "fs_faults test_disk = no_faults" by (simp add: test_disk_def)
  have 1: "StatusCode (fst (apiTasksHandler_file sample_runtime ?r1 test_disk)) = 200 \<and>
     fst (loadTasksFromFile sample_runtime (snd (apiTasksHandler_file sample_runtime ?r1 test_disk)))
       = Inr [taskB]"
    using delete_by_id [of ?r1 101 sample_runtime test_disk getTestTasks _ "''doc-B''",
        OF _ _ load_test_disk]
    by (simp add: d f Atoi_101 sample_unmarshal_B sample_marshal_B test_ids)
  have 2: "apiTasksHandler_file sample_runtime ?r2 test_disk =
     (\<lparr>StatusCode = 404, Reply = TaskNotFound 7\<rparr>, test_disk\<lparr>fs_trace := [ReadFile]\<rparr>)"
    using delete_by_id [of ?r2 7 sample_runtime test_disk getTestTasks _ "''doc-B''",
        OF _ _ load_test_disk]
    by (simp add: f Atoi_7)
  from 1 2 show ?thesis by blast
qed

text \<open>
  The claim as the specification states it says that no write occurs when the id is
  absent. That fails when \<open>gantt.json\<close> does not exist: the handler's load then writes
  the default file before the handler answers 404 for an id that is not among the
  defaults.
\<close>

theorem delete_absent_id_writes_missing_file:
  "gantt_json fresh_disk = None \<and>
   apiTasksHandler_file sample_runtime
     \<lparr>Method = ''DELETE'', Body = None, QueryID = ''7''\<rparr> fresh_disk =
     (\<lparr>StatusCode = 404, Reply = TaskNotFound 7\<rparr>,
      \<lparr>gantt_json = Some ''doc-defaults'', fs_trace = [ReadFile, WriteFile ''doc-defaults''],
       fs_faults = no_faults\<rparr>)"
proof -
  let ?r = "\<lparr>Method = ''DELETE'', Body = None, QueryID = ''7''\<rparr>"
  have f: "fs_faults fresh_disk = no_faults" "gantt_json fresh_disk = None"
    by (simp_all add: fresh_disk_def)
  have l: "loadTasksFromFile sample_runtime fresh_disk =
     (Inr (getInitialTasks 2026),
      \<lparr>gantt_json = Some ''doc-defaults'', fs_trace = [ReadFile, WriteFile ''doc-defaults''],
       fs_faults = no_faults\<rparr>)"
  proof -
    have y: "NowYear sample_runtime = 2026" by (simp add: sample_runtime_def)
    from loadTasksFromFile_absent [OF f, of sample_runtime]
    have "loadTasksFromFile sample_runtime fresh_disk =
      (Inr (getInitialTasks 2026),
       fresh_disk\<lparr>gantt_json := Some ''doc-defaults'',
                    fs_trace := fs_trace fresh_disk @ [ReadFile, WriteFile ''doc-defaults'']\<rparr>)"
      by (simp add: y sample_marshal_defaults)
    then show ?thesis by (simp add: fresh_disk_def)
  qed
  have n: "7 \<notin> set (map ID (getInitialTasks 2026))"
    by (simp add: getInitialTasks_ids)
  have "apiTasksHandler_file sample_runtime ?r fresh_disk =
     (\<lparr>StatusCode = 404, Reply = TaskNotFound 7\<rparr>,
      \<lparr>gantt_json = Some ''doc-defaults'', fs_trace = [ReadFile, WriteFile ''doc-defaults''],
       fs_faults = no_faults\<rparr>)"
    by (rule delete_absent [OF _ _ l n]) (simp_all add: Atoi_7)
  with f(2) show ?thesis by simp
qed

section \<open>Deleting an id that occurs several times\<close>

text \<open>
  Claim C10. The flat-file variant does not keep ids unique. For a DELETE request with a
  well-formed id \<open>i\<close>, whose load returns the list \<open>cur\<close>, when at least one task of
  \<open>cur\<close> has id \<open>i\<close> and the write does not fail: the response is 200 and the
  document written is that of \<open>cur\<close> without every task of id \<open>i\<close>, however many
  there are.
\<close>

theorem delete_removes_every_match:
  assumes "Method r = ''DELETE''" and "Atoi (QueryID r) = Some i"
    and "loadTasksFromFile R fs = (Inr cur, fs1)" and "i \<in> set (map ID cur)"
    and "MarshalIndent R (filter (\<lambda>t. ID t \<noteq> i) cur) = Some doc'"
    and "\<not> fs_faults fs1 (length (fs_trace fs1))"
  shows "apiTasksHandler_file R r fs =
           (\<lparr>StatusCode = 200, Reply = DeletedMessage i\<rparr>,
            fs1\<lparr>gantt_json := Some doc', fs_trace := fs_trace fs1 @ [WriteFile doc']\<rparr>) \<and>
         deleteLoop i cur (False, []) = (True, filter (\<lambda>t. ID t \<noteq> i) cur) \<and>
         i \<notin> set (map ID (filter (\<lambda>t. ID t \<noteq> i) cur)) \<and>
         length (filter (\<lambda>t. ID t \<noteq> i) cur) + length (filter (\<lambda>t. ID t = i) cur) = length cur"
proof (intro conjI)
  show "apiTasksHandler_file R r fs =
           (\<lparr>StatusCode = 200, Reply = DeletedMessage i\<rparr>,
            fs1\<lparr>gantt_json := Some doc', fs_trace := fs_trace fs1 @ [WriteFile doc']\<rparr>)"
    by (rule delete_present [OF assms])
  show "deleteLoop i cur (False, []) = (True, filter (\<lambda>t. ID t \<noteq> i) cur)"
    using assms(4) by (simp add: deleteLoop_start)
  show "i \<notin> set (map ID (filter (\<lambda>t. ID t \<noteq> i) cur))" by auto
  show "length (filter (\<lambda>t. ID t \<noteq> i) cur) + length (filter (\<lambda>t. ID t = i) cur) = length cur"
    using sum_length_filter_compl [of "\<lambda>t. ID t = i" cur] by simp
qed

lemma load_duplicate_disk:
  "loadTasksFromFile sample_runtime duplicate_disk =
     (Inr [taskA, taskB, taskA2], duplicate_disk\<lparr>fs_trace := [ReadFile]\<rparr>)"
  using loadTasksFromFile_existing [of duplicate_disk "''doc-A-B-A2''" sample_runtime]
  by (simp add: duplicate_disk_def sample_unmarshal_dup)

theorem delete_removes_every_match_witness:
  "apiTasksHandler_file sample_runtime
     \<lparr>Method = ''DELETE'', Body = None, QueryID = ''101''\<rparr> duplicate_disk =
     (\<lparr>StatusCode = 200, Reply = DeletedMessage 101\<rparr>,
      duplicate_disk\<lparr>gantt_json := Some ''doc-B'',
                      fs_trace := [ReadFile, WriteFile ''doc-B'']\<rparr>) \<and>
   deleteLoop 101 [taskA, taskB, taskA2] (False, []) = (True, [taskB]) \<and>
   length (filter (\<lambda>t. ID t = 101) [taskA, taskB, taskA2]) = 2"
proof -
  let ?r = "\<lparr>Method = ''DELETE'', Body = None, QueryID = ''101''\<rparr>"
  have w: "\<not> fs_faults (duplicate_disk\<lparr>fs_trace := [ReadFile]\<rparr>)
      (length (fs_trace (duplicate_disk\<lparr>fs_trace := [ReadFile]\<rparr>)))"
    by (simp add: duplicate_disk_def no_faults_def)
  from delete_removes_every_match [of ?r 101 sample_runtime duplicate_disk
      "[taskA, taskB, taskA2]" _ "''doc-B''", OF _ _ load_duplicate_disk _ _ w]
  show ?thesis
    by (simp add: test_ids Atoi_101 sample_marshal_B)
qed

section \<open>A failed initialisation at startup\<close>

text \<open>
  Claim C8, as the code has it. In the relational variant a failure of \<open>initDB\<close> ends
  the process through \<open>log.Fatalf\<close> before \<open>http.ListenAndServe\<close> is called. In the
  flat-file variant \<open>main\<close> prints the error of a failed first load and calls
  \<open>http.ListenAndServe\<close> all the same: the server is started in every case.
\<close>

theorem startup_failure:
  "(fst (initDB R db) = Some err \<longrightarrow>
      fst (main_db R port_free db) = [Fatalf_InitDB err] \<and>
      ListenAndServe \<notin> set (fst (main_db R port_free db))) \<and>
   (fst (initDB R db) = None \<longrightarrow> ListenAndServe \<in> set (fst (main_db R port_free db))) \<and>
   (fst (loadTasksFromFile R fs) = Inl err' \<longrightarrow>
      fst (main_file R port_free fs) =
        [Printf_LoadError err', ListenAndServe] @ (if port_free then [] else [Printf_ListenError])) \<and>
   ListenAndServe \<in> set (fst (main_file R port_free fs))"
  by (auto simp: main_db_def main_file_def split: prod.splits option.splits sum.splits)

theorem startup_failure_witness:
  "fst (initDB sample_runtime broken_db) = Some OpenError \<and>
   fst (main_db sample_runtime True broken_db) = [Fatalf_InitDB OpenError] \<and>
   fst (main_db sample_runtime True fresh_db) = [ListenAndServe] \<and>
   fst (main_file sample_runtime False broken_disk) =
     [Printf_LoadError ReadError, ListenAndServe, Printf_ListenError]"
proof -
  have i: "fst (initDB sample_runtime broken_db) = Some OpenError"
    by (simp add: initDB_def driver_def broken_db_def)
  have j: "fst (initDB sample_runtime fresh_db) = None"
    by (simp add: initDB_ok fresh_db_def)
  have l: "fst (loadTasksFromFile sample_runtime broken_disk) = Inl ReadError"
    by (simp add: loadTasksFromFile_def os_ReadFile_def broken_disk_def)
  from startup_failure [of sample_runtime broken_db OpenError True broken_disk ReadError] i
  have 1: "fst (main_db sample_runtime True broken_db) = [Fatalf_InitDB OpenError]" by simp
  from startup_failure [of sample_runtime fresh_db _ True] j
  have "ListenAndServe \<in> set (fst (main_db sample_runtime True fresh_db))" by simp
  then have 2: "fst (main_db sample_runtime True fresh_db) = [ListenAndServe]"
    using j by (auto simp: main_db_def split: prod.splits option.splits)
  from startup_failure [of sample_runtime broken_db OpenError False broken_disk ReadError] l
  have 3: "fst (main_file sample_runtime False broken_disk) =
     [Printf_LoadError ReadError, ListenAndServe, Printf_ListenError]" by simp
  from i 1 2 3 show ?thesis by blast
qed

text \<open>
  The claim as the specification states it, for both variants, fails for the flat-file
  variant: on a disk whose first read fails, the first load fails and the server is
  started.
\<close>

theorem startup_failure_not_fatal_for_file:
  "fst (loadTasksFromFile sample_runtime broken_disk) = Inl ReadError \<and>
   fst (main_file sample_runtime True broken_disk) = [Printf_LoadError ReadError, ListenAndServe]"
  by (simp add: main_file_def loadTasksFromFile_def os_ReadFile_def broken_disk_def)

section \<open>A read while a write is under way\<close>

text \<open>
  Run alone, the steps of a goroutine do what \<open>loadTasksFromFile\<close> and
  \<open>saveTasksToFile\<close> do.
\<close>

lemma load_alone_agrees:
  assumes "fs_faults fs = no_faults" and "gantt_json fs = Some doc"
  shows "run R [0, 0, 0, 0] \<lparr>disk_file = gantt_json fs, dataMutex = None, goroutines = [load_call]\<rparr> =
    Some \<lparr>disk_file = gantt_json (snd (loadTasksFromFile R fs)), dataMutex = None,
          goroutines = [load_call\<lparr>at := Returned, data_var := doc,
            returned := Some (case fst (loadTasksFromFile R fs) of
                                Inl e \<Rightarrow> Failed e | Inr tasks \<Rightarrow> Loaded tasks)\<rparr>]\<rparr>"
  using assms
  by (simp add: loadTasksFromFile_existing [where doc = doc] step_def step_goroutine_def
      load_call_def split: option.splits)

lemma save_alone_agrees:
  assumes "fs_faults fs = no_faults" and "MarshalIndent R tasks = Some doc"
  shows "run R [0, 0, 0, 0, 0]
      \<lparr>disk_file = gantt_json fs, dataMutex = None, goroutines = [save_call tasks]\<rparr> =
    Some \<lparr>disk_file = gantt_json (snd (saveTasksToFile R tasks fs)), dataMutex = None,
          goroutines = [save_call tasks\<lparr>at := Returned, data_var := doc,
            returned := Some (case fst (saveTasksToFile R tasks fs) of
                                Some e \<Rightarrow> Failed e | None \<Rightarrow> Saved)\<rparr>]\<rparr>"
  using assms
  by (simp add: saveTasksToFile_ok step_def step_goroutine_def save_call_def)

text \<open>
  Claim C9 says that \<open>dataMutex\<close> guards every read of \<open>gantt.json\<close>, so that a
  reader never sees a partially written document. The code does not do that:
  \<open>loadTasksFromFile\<close> reads the file (line 39) before it takes the lock (line 55).
  While a POST holds the lock and has truncated the file but not yet written it, the
  GET's read goes through and gets the empty file; both run to their end, the file then
  holds the new document, and the GET has failed to parse what it read. This holds for
  every codec that rejects the empty input, as \<open>encoding/json\<close> does.
\<close>

theorem read_races_with_write:
  assumes "MarshalIndent R new = Some doc'" and "Unmarshal R [] = None"
  shows "run R [1, 1, 1, 0]
           \<lparr>disk_file = Some doc, dataMutex = None, goroutines = [load_call, save_call new]\<rparr> =
         Some \<lparr>disk_file = Some [], dataMutex = Some 1,
               goroutines = [load_call\<lparr>at := Load_Lock, data_var := []\<rparr>,
                             (save_call new)\<lparr>at := Save_Write, data_var := doc'\<rparr>]\<rparr> \<and>
         run R [1, 1, 1, 0, 1, 1, 0, 0, 0]
           \<lparr>disk_file = Some doc, dataMutex = None, goroutines = [load_call, save_call new]\<rparr> =
         Some \<lparr>disk_file = Some doc', dataMutex = None,
               goroutines = [load_call\<lparr>at := Returned, data_var := [],
                               returned := Some (Failed ParseError)\<rparr>,
                             (save_call new)\<lparr>at := Returned, data_var := doc',
                               returned := Some Saved\<rparr>]\<rparr>"
  using assms
  by (simp add: step_def step_goroutine_def load_call_def save_call_def)

theorem read_races_with_write_witness:
  "run sample_runtime [1, 1, 1, 0] get_and_post =
     Some \<lparr>disk_file = Some [], dataMutex = Some 1,
           goroutines = [load_call\<lparr>at := Load_Lock, data_var := []\<rparr>,
                         (save_call [taskB])\<lparr>at := Save_Write, data_var := ''doc-B''\<rparr>]\<rparr> \<and>
   run sample_runtime [1, 1, 1, 0, 1, 1, 0, 0, 0] get_and_post =
     Some \<lparr>disk_file = Some ''doc-B'', dataMutex = None,
           goroutines = [load_call\<lparr>at := Returned, data_var := [],
                           returned := Some (Failed ParseError)\<rparr>,
                         (save_call [taskB])\<lparr>at := Returned, data_var := ''doc-B'',
                           returned := Some Saved\<rparr>]\<rparr>"
proof -
  have u: "Unmarshal sample_runtime [] = None"
    by (simp add: sample_runtime_def sample_docs_def)
  from read_races_with_write [OF sample_marshal_B u, of "''doc-A-B''"]
  show ?thesis by (simp add: get_and_post_def)
qed

end
